theory Spec2Isabelle
  imports Main "HOL-Library.Log_Nat"
begin

section \<open>Python values\<close>

subsection \<open>Exceptions\<close>

text \<open>
  The exceptions that can travel through \<open>working.py\<close>. All of them are subclasses of
  Python's \<open>Exception\<close>, so \<open>except Exception\<close> catches every one; \<open>except IOError\<close>
  catches \<open>OSError\<close> only (IOError is its alias), \<open>except AttributeError\<close> catches
  \<open>AttributeError\<close> only, and \<open>except requests.exceptions.RequestException\<close> catches
  \<open>RequestException\<close> only. \<open>NameError n\<close> is what Python raises when the global name
  \<open>n\<close> is read and is not bound. \<open>SystemError\<close> stands for a reference to an object
  that does not exist, which no Python program can produce.
\<close>

datatype exn =
    NameError string
  | RequestException
  | OSError
  | AttributeError
  | ValueError
  | ZeroDivisionError
  | MemoryError
  | SystemError

subsection \<open>Floats\<close>

text \<open>
  Python floats are IEEE binary64 numbers. A finite float is modelled by the rational it
  denotes, and every operation rounds its exact result to the nearest number with a 53-bit
  significand, ties to even (\<open>fl\<close>). Overflow and subnormal numbers are not modelled: the
  magnitudes in this program are pixel counts and colour channels.
\<close>

definition ilog2 :: "rat \<Rightarrow> int" where
  "ilog2 a = (let (p, q) = quotient_of a; d = bitlen p - bitlen q
              in if 2 powi d \<le> a then d else d - 1)"

definition rne :: "rat \<Rightarrow> int" where
  "rne q = (let f = \<lfloor>q\<rfloor>; r = q - of_int f
            in if r < 1 / 2 then f else if 1 / 2 < r then f + 1
               else if even f then f else f + 1)"

definition fl :: "rat \<Rightarrow> rat" where
  "fl x = (if x = 0 then 0
           else let u = 2 powi (ilog2 \<bar>x\<bar> - 52) in of_int (rne (x / u)) * u)"

definition py_float :: "int \<Rightarrow> rat" where
  "py_float n = fl (of_int n)"

definition truediv :: "int \<Rightarrow> int \<Rightarrow> rat" where
  \<comment> \<open>\<open>a / b\<close> on ints, for \<open>b \<noteq> 0\<close>: the correctly rounded quotient\<close>
  "truediv a b = fl (of_int a / of_int b)"

definition fmul :: "rat \<Rightarrow> rat \<Rightarrow> rat" where
  "fmul a b = fl (a * b)"

definition fadd :: "rat \<Rightarrow> rat \<Rightarrow> rat" where
  "fadd a b = fl (a + b)"

definition fsub :: "rat \<Rightarrow> rat \<Rightarrow> rat" where
  "fsub a b = fl (a - b)"

definition py_int :: "rat \<Rightarrow> int" where
  \<comment> \<open>\<open>int(x)\<close> on a float truncates towards zero\<close>
  "py_int x = (if 0 \<le> x then \<lfloor>x\<rfloor> else \<lceil>x\<rceil>)"

subsection \<open>Strings\<close>

text \<open>
  Strings are lists of characters with codes below 256. \<open>isspace\<close> is Python's
  \<open>str.isspace\<close> on that range; \<open>strip\<close> is \<open>str.strip()\<close> and \<open>split_on\<close> is
  \<open>str.split(sep)\<close> for a one-character separator.
\<close>

definition isspace :: "char \<Rightarrow> bool" where
  "isspace c = (let n = (of_char c :: nat)
                in (9 \<le> n \<and> n \<le> 13) \<or> (28 \<le> n \<and> n \<le> 32) \<or> n = 133 \<or> n = 160)"

definition strip :: "string \<Rightarrow> string" where
  "strip s = rev (dropWhile isspace (rev (dropWhile isspace s)))"

fun split_on :: "char \<Rightarrow> string \<Rightarrow> string list" where
  "split_on sep [] = [[]]"
| "split_on sep (c # cs) =
     (if c = sep then [] # split_on sep cs
      else (case split_on sep cs of
              [] \<Rightarrow> [[c]]
            | l # ls \<Rightarrow> (c # l) # ls))"

section \<open>Pillow images\<close>

text \<open>
  An image object of Pillow: its mode, its size and its pixels. A pixel is
  \<open>(r, g, b, a)\<close>; an image without alpha band has \<open>a = 255\<close> everywhere. Only the
  pixels at \<open>0 \<le> x < xsize\<close>, \<open>0 \<le> y < ysize\<close> belong to the image.
\<close>

datatype mode = L | RGB | RGBA

type_synonym pixel = "int \<times> int \<times> int \<times> int"

record image =
  mode :: mode
  xsize :: nat
  ysize :: nat
  pixels :: "int \<Rightarrow> int \<Rightarrow> pixel"

datatype font = FreeTypeFont string int | DefaultFont

datatype libcall =
    Call_open | Call_new | Call_copy | Call_convert | Call_thumbnail
  | Call_alpha_composite | Call_paste | Call_text | Call_line

record response =
  status_code :: int
  content :: "nat list"
  body_text :: string

text \<open>
  What the program takes from outside its own source: the process environment, the HTTP
  endpoint, the installed fonts and Pillow's rasterisation and pixel arithmetic.
  \<open>post i\<close> is the outcome of the \<open>i\<close>-th call of \<open>requests.post\<close>. \<open>fault c im\<close> is the
  exception, if any, with which the Pillow call \<open>c\<close> on the image \<open>im\<close> fails.
\<close>

record env =
  getenv :: "string \<Rightarrow> string option"
  post :: "nat \<Rightarrow> string \<Rightarrow> nat \<Rightarrow> nat \<Rightarrow> exn + response"
  decode :: "nat list \<Rightarrow> image"
  truetype :: "string \<Rightarrow> int \<Rightarrow> exn + font"
  textbbox :: "font \<Rightarrow> string \<Rightarrow> exn + (int \<times> int \<times> int \<times> int)"
  textsize :: "font \<Rightarrow> string \<Rightarrow> exn + (int \<times> int)"
  glyphs :: "font \<Rightarrow> string \<Rightarrow> int \<Rightarrow> int \<Rightarrow> int"
  getrgb :: "string \<Rightarrow> pixel"
  over :: "pixel \<Rightarrow> pixel \<Rightarrow> pixel"
  masked :: "pixel \<Rightarrow> pixel \<Rightarrow> int \<Rightarrow> pixel"
  recode :: "mode \<Rightarrow> mode \<Rightarrow> pixel \<Rightarrow> pixel"
  resample :: "image \<Rightarrow> nat \<times> nat \<Rightarrow> int \<Rightarrow> int \<Rightarrow> pixel"
  fault :: "libcall \<Rightarrow> image \<Rightarrow> exn option"

subsection \<open>Image values\<close>

definition new_v :: "mode \<Rightarrow> nat \<times> nat \<Rightarrow> pixel \<Rightarrow> image" where
  "new_v m sz c = \<lparr>mode = m, xsize = fst sz, ysize = snd sz, pixels = (\<lambda>x y. c)\<rparr>"

definition convert_v :: "env \<Rightarrow> mode \<Rightarrow> image \<Rightarrow> image" where
  "convert_v E m im =
     (if mode im = m then im
      else im\<lparr>mode := m, pixels := (\<lambda>x y. recode E (mode im) m (pixels im x y))\<rparr>)"

definition alpha_composite_v :: "env \<Rightarrow> image \<Rightarrow> image \<Rightarrow> image" where
  \<comment> \<open>\<open>Image.alpha_composite(im1, im2)\<close>: \<open>im2\<close> over \<open>im1\<close>, pixel by pixel\<close>
  "alpha_composite_v E im1 im2 =
     im1\<lparr>pixels := (\<lambda>x y. over E (pixels im2 x y) (pixels im1 x y))\<rparr>"

definition paste_v :: "env \<Rightarrow> image \<Rightarrow> image \<Rightarrow> int \<times> int \<Rightarrow> image \<Rightarrow> image" where
  \<comment> \<open>\<open>dst.paste(src, (px, py), mask)\<close>: inside the box of \<open>src\<close> placed at \<open>(px, py)\<close> the
      source pixel is blended into the destination, weighted by the mask: its alpha band,
      or its only band when the mask has mode \<open>L\<close>\<close>
  "paste_v E dst src pos msk =
     dst\<lparr>pixels := (\<lambda>x y.
        if fst pos \<le> x \<and> x < fst pos + int (xsize src) \<and>
           snd pos \<le> y \<and> y < snd pos + int (ysize src)
        then masked E (pixels dst x y) (pixels src (x - fst pos) (y - snd pos))
               (let m = pixels msk (x - fst pos) (y - snd pos)
                in if mode msk = L then fst m else snd (snd (snd m)))
        else pixels dst x y)\<rparr>"

definition text_v :: "env \<Rightarrow> image \<Rightarrow> int \<times> int \<Rightarrow> string \<Rightarrow> font \<Rightarrow> string \<Rightarrow> image" where
  \<comment> \<open>\<open>draw.text(xy, text, font=font, fill=fill)\<close>: the ink goes through the glyph coverage\<close>
  "text_v E im xy t f fill =
     im\<lparr>pixels := (\<lambda>x y. masked E (pixels im x y) (getrgb E fill)
                              (glyphs E f t (x - fst xy) (y - snd xy)))\<rparr>"

definition clip8 :: "int \<Rightarrow> int" where
  \<comment> \<open>Pillow stores a channel of an ink given as integers clamped to 0..255\<close>
  "clip8 v = max 0 (min 255 v)"

definition line_v :: "image \<Rightarrow> int \<times> int \<Rightarrow> int \<times> int \<Rightarrow> int \<times> int \<times> int \<Rightarrow> image" where
  \<comment> \<open>\<open>draw.line([(x0, y0), (x1, y0)], fill=(r, g, b))\<close>, a horizontal line one pixel high,
      end points included\<close>
  "line_v im p0 p1 fill =
     im\<lparr>pixels := (\<lambda>x y.
        if y = snd p0 \<and> min (fst p0) (fst p1) \<le> x \<and> x \<le> max (fst p0) (fst p1)
        then (clip8 (fst fill), clip8 (fst (snd fill)), clip8 (snd (snd fill)), 255)
        else pixels im x y)\<rparr>"

text \<open>
  Modelled from the spec: \<open>Image.thumbnail\<close> is code of Pillow and not under src/. The
  spec (4.2) says that it downsamples so that both dimensions are at most the maximum
  while preserving the aspect ratio, and never enlarges. The rule below is the one Pillow
  uses: the side that hits the box keeps the requested length, the other side is the
  floor or the ceiling of the exact length, whichever gives the closer aspect ratio, and
  at least 1. The result \<open>None\<close> means that the image already fits.
\<close>

definition round_aspect :: "rat \<Rightarrow> (int \<Rightarrow> rat) \<Rightarrow> int" where
  "round_aspect number key =
     max (if key \<lfloor>number\<rfloor> \<le> key \<lceil>number\<rceil> then \<lfloor>number\<rfloor> else \<lceil>number\<rceil>) 1"

definition thumbnail_size :: "nat \<times> nat \<Rightarrow> nat \<times> nat \<Rightarrow> exn + (nat \<times> nat) option" where
  "thumbnail_size sz box =
     (let w = fst sz; h = snd sz; x = fst box; y = snd box in
      if w \<le> x \<and> h \<le> y then Inr None
      else if h = 0 \<or> y = 0 then Inl ZeroDivisionError
      else let aspect = (of_nat w / of_nat h :: rat) in
        if aspect \<le> of_nat x / of_nat y
        then Inr (Some (nat (round_aspect (of_nat y * aspect)
                                (\<lambda>n. \<bar>aspect - of_int n / of_nat y\<bar>)), y))
        else Inr (Some (x, nat (round_aspect (of_nat x / aspect)
                                  (\<lambda>n. if n = 0 then 0 else \<bar>aspect - of_nat x / of_int n\<bar>)))))"

definition resize_v :: "env \<Rightarrow> image \<Rightarrow> nat \<times> nat \<Rightarrow> image" where
  "resize_v E im sz = im\<lparr>xsize := fst sz, ysize := snd sz, pixels := resample E im sz\<rparr>"

section \<open>Program state\<close>

text \<open>
  Python variables hold references. The heap is the list of the image objects created so
  far and a reference is an index into it; a new object goes to the end. \<open>drawn\<close> is the
  sequence of the \<open>draw.text\<close> calls made so far.
\<close>

record text_call =
  target :: nat
  xy :: "int \<times> int"
  label :: string
  face :: font
  ink :: string

record state =
  heap :: "image list"
  drawn :: "text_call list"

type_synonym 'a py = "state \<Rightarrow> (exn + 'a) \<times> state"

definition py_return :: "'a \<Rightarrow> 'a py" where
  "py_return x s = (Inr x, s)"

definition py_raise :: "exn \<Rightarrow> 'a py" where
  "py_raise e s = (Inl e, s)"

definition py_bind :: "'a py \<Rightarrow> ('a \<Rightarrow> 'b py) \<Rightarrow> 'b py" where
  "py_bind m f s = (case m s of (Inl e, s') \<Rightarrow> (Inl e, s') | (Inr x, s') \<Rightarrow> f x s')"

definition py_try :: "'a py \<Rightarrow> (exn \<Rightarrow> 'a py) \<Rightarrow> 'a py" where
  \<comment> \<open>\<open>try: m except: h\<close>; a handler re-raises what its \<open>except\<close> clause does not name\<close>
  "py_try m h s = (case m s of (Inl e, s') \<Rightarrow> h e s' | (Inr x, s') \<Rightarrow> (Inr x, s'))"

definition py_lift :: "exn + 'a \<Rightarrow> 'a py" where
  "py_lift r s = (r, s)"

fun for_each :: "'a list \<Rightarrow> ('a \<Rightarrow> unit py) \<Rightarrow> unit py" where
  "for_each [] body = py_return ()"
| "for_each (x # xs) body = py_bind (body x) (\<lambda>_. for_each xs body)"

definition alloc :: "image \<Rightarrow> nat py" where
  "alloc v s = (Inr (length (heap s)), s\<lparr>heap := heap s @ [v]\<rparr>)"

definition deref :: "nat \<Rightarrow> image py" where
  "deref a s = (if a < length (heap s) then (Inr (heap s ! a), s) else (Inl SystemError, s))"

definition assign :: "nat \<Rightarrow> image \<Rightarrow> unit py" where
  "assign a v s =
     (if a < length (heap s) then (Inr (), s\<lparr>heap := (heap s)[a := v]\<rparr>)
      else (Inl SystemError, s))"

definition guard :: "env \<Rightarrow> libcall \<Rightarrow> image \<Rightarrow> unit py" where
  "guard E c im = (case fault E c im of Some e \<Rightarrow> py_raise e | None \<Rightarrow> py_return ())"

subsection \<open>Pillow calls on the heap\<close>

definition Image_open :: "env \<Rightarrow> nat list \<Rightarrow> nat py" where
  "Image_open E bytes = py_bind (guard E Call_open (decode E bytes)) (\<lambda>_. alloc (decode E bytes))"

definition Image_new :: "env \<Rightarrow> mode \<Rightarrow> nat \<times> nat \<Rightarrow> pixel \<Rightarrow> nat py" where
  "Image_new E m sz c = py_bind (guard E Call_new (new_v m sz c)) (\<lambda>_. alloc (new_v m sz c))"

definition Image_copy :: "env \<Rightarrow> nat \<Rightarrow> nat py" where
  "Image_copy E a = py_bind (deref a) (\<lambda>im. py_bind (guard E Call_copy im) (\<lambda>_. alloc im))"

definition Image_convert :: "env \<Rightarrow> nat \<Rightarrow> mode \<Rightarrow> nat py" where
  "Image_convert E a m =
     py_bind (deref a) (\<lambda>im. py_bind (guard E Call_convert im) (\<lambda>_. alloc (convert_v E m im)))"

definition Image_alpha_composite :: "env \<Rightarrow> nat \<Rightarrow> nat \<Rightarrow> nat py" where
  "Image_alpha_composite E a b =
     py_bind (deref a) (\<lambda>im1. py_bind (deref b) (\<lambda>im2.
     py_bind (guard E Call_alpha_composite im1) (\<lambda>_.
       if mode im1 = RGBA \<and> mode im2 = RGBA \<and> xsize im1 = xsize im2 \<and> ysize im1 = ysize im2
       then alloc (alpha_composite_v E im1 im2)
       else py_raise ValueError)))"

definition Image_paste :: "env \<Rightarrow> nat \<Rightarrow> nat \<Rightarrow> int \<times> int \<Rightarrow> nat \<Rightarrow> unit py" where
  "Image_paste E a src pos msk =
     py_bind (deref a) (\<lambda>dst. py_bind (deref src) (\<lambda>im. py_bind (deref msk) (\<lambda>mk.
     py_bind (guard E Call_paste dst) (\<lambda>_.
       if mode mk = RGB then py_raise ValueError
       else assign a (paste_v E dst im pos mk)))))"

definition Image_thumbnail :: "env \<Rightarrow> nat \<Rightarrow> nat \<times> nat \<Rightarrow> unit py" where
  "Image_thumbnail E a box =
     py_bind (deref a) (\<lambda>im. py_bind (guard E Call_thumbnail im) (\<lambda>_.
     py_bind (py_lift (thumbnail_size (xsize im, ysize im) box)) (\<lambda>r.
       case r of None \<Rightarrow> py_return ()
       | Some sz \<Rightarrow> if sz = (xsize im, ysize im) then py_return ()
                   else assign a (resize_v E im sz))))"

definition Draw_text :: "env \<Rightarrow> nat \<Rightarrow> int \<times> int \<Rightarrow> string \<Rightarrow> font \<Rightarrow> string \<Rightarrow> unit py" where
  "Draw_text E draw p t f fill =
     py_bind (deref draw) (\<lambda>im. py_bind (guard E Call_text im) (\<lambda>_.
     py_bind (assign draw (text_v E im p t f fill)) (\<lambda>_.
       (\<lambda>s. (Inr (), s\<lparr>drawn := drawn s @
                [\<lparr>target = draw, xy = p, label = t, face = f, ink = fill\<rparr>]\<rparr>)))))"

definition Draw_line :: "env \<Rightarrow> nat \<Rightarrow> int \<times> int \<Rightarrow> int \<times> int \<Rightarrow> int \<times> int \<times> int \<Rightarrow> unit py" where
  "Draw_line E draw p0 p1 fill =
     py_bind (deref draw) (\<lambda>im. py_bind (guard E Call_line im) (\<lambda>_.
       assign draw (line_v im p0 p1 fill)))"

section \<open>The program\<close>

text \<open>
  The names bound at module level in \<open>working.py\<close>: the imports of lines 1 to 5 and the
  functions and the variable the file defines. Reading any other global name that is not
  a builtin raises \<open>NameError\<close>.
\<close>

definition module_globals :: "string list" where
  "module_globals =
     [''gr'', ''Image'', ''ImageDraw'', ''ImageFont'', ''os'', ''requests'', ''io'',
      ''create_background_via_api'', ''create_fallback_background'',
      ''create_gradient_background'', ''get_font'', ''process_logo'',
      ''draw_text_with_outline'', ''apply_text_layout'', ''generate_simple_poster'',
      ''create_simple_interface'', ''demo'']"

definition global_name :: "string \<Rightarrow> unit py" where
  "global_name n = (if n \<in> set module_globals then py_return () else py_raise (NameError n))"

definition py_lit :: "rat \<Rightarrow> rat" where
  \<comment> \<open>a decimal float literal denotes the nearest float\<close>
  "py_lit q = fl q"

definition py_range :: "int \<Rightarrow> int \<Rightarrow> int list" where
  "py_range a b = [a..b - 1]"

subsection \<open>create_gradient_background, create_fallback_background\<close>

definition create_gradient_background ::
  "env \<Rightarrow> nat \<Rightarrow> nat \<Rightarrow> int \<times> int \<times> int \<Rightarrow> int \<times> int \<times> int \<Rightarrow> nat py" where
  "create_gradient_background E width height color1 color2 =
     py_bind (Image_new E RGB (width, height) (0, 0, 0, 255)) (\<lambda>image.
     let draw = image in
     py_bind (for_each [0..<height] (\<lambda>y.
        let ratio = truediv (int y) (int height);
            r = py_int (fadd (fmul (py_float (fst color1)) (fsub (py_float 1) ratio))
                             (fmul (py_float (fst color2)) ratio));
            g = py_int (fadd (fmul (py_float (fst (snd color1))) (fsub (py_float 1) ratio))
                             (fmul (py_float (fst (snd color2))) ratio));
            b = py_int (fadd (fmul (py_float (snd (snd color1))) (fsub (py_float 1) ratio))
                             (fmul (py_float (snd (snd color2))) ratio))
        in Draw_line E draw (0, int y) (int width, int y) (r, g, b))) (\<lambda>_.
     py_return image))"

definition create_fallback_background :: "env \<Rightarrow> nat \<Rightarrow> nat \<Rightarrow> nat py" where
  "create_fallback_background E width height =
     (let colors = [(100, 150, 255), (150, 200, 255)]
      in create_gradient_background E width height (colors ! 0) (colors ! 1))"

subsection \<open>create_background_via_api\<close>

text \<open>
  One pass through the body of the retry loop ends in \<open>continue\<close>, in \<open>break\<close> or in
  \<open>return\<close>. The 503 branch calls \<open>time.sleep(15)\<close>, which first reads the global name
  \<open>time\<close>.
\<close>

datatype 'a outcome = Continue | Break | Return 'a

definition attempt :: "env \<Rightarrow> string \<Rightarrow> nat \<Rightarrow> nat \<Rightarrow> nat \<Rightarrow> nat outcome py" where
  "attempt E full_prompt width height i =
     py_try
       (py_bind (py_lift (post E i full_prompt width height)) (\<lambda>response.
          if status_code response = 200
          then py_bind (Image_open E (content response)) (\<lambda>im. py_return (Return im))
          else if status_code response = 503
          then py_bind (global_name ''time'') (\<lambda>_. py_return Continue)
          else py_return Break))
       (\<lambda>e. if e = RequestException then py_return Break else py_raise e)"

fun retry_loop :: "env \<Rightarrow> string \<Rightarrow> nat \<Rightarrow> nat \<Rightarrow> nat list \<Rightarrow> nat option py" where
  "retry_loop E full_prompt width height [] = py_return None"
| "retry_loop E full_prompt width height (i # rest) =
     py_bind (attempt E full_prompt width height i) (\<lambda>r.
       case r of
         Continue \<Rightarrow> retry_loop E full_prompt width height rest
       | Break \<Rightarrow> py_return None
       | Return im \<Rightarrow> py_return (Some im))"

definition create_background_via_api :: "env \<Rightarrow> string \<Rightarrow> nat \<Rightarrow> nat \<Rightarrow> nat \<Rightarrow> nat py" where
  "create_background_via_api E prompt width height retries =
     (case getenv E ''HF_TOKEN'' of
        None \<Rightarrow> create_fallback_background E width height
      | Some token \<Rightarrow>
          if token = [] then create_fallback_background E width height
          else
            let full_prompt = prompt @
              '', poster design, concept art, trending on artstation, sharp, 4k, mdjrny-v4 style''
            in py_bind (retry_loop E full_prompt width height [0..<retries]) (\<lambda>r.
                 case r of
                   Some im \<Rightarrow> py_return im
                 | None \<Rightarrow> create_fallback_background E width height))"

subsection \<open>get_font, process_logo\<close>

definition get_font :: "env \<Rightarrow> int \<Rightarrow> font py" where
  "get_font E sz =
     py_try (py_lift (truetype E ''DejaVuSans.ttf'' sz))
            (\<lambda>e. if e = OSError then py_return DefaultFont else py_raise e)"

definition process_logo :: "env \<Rightarrow> nat option \<Rightarrow> nat \<Rightarrow> nat option py" where
  "process_logo E logo_image max_size =
     (case logo_image of
        None \<Rightarrow> py_return None
      | Some li \<Rightarrow>
          py_try
            (py_bind (Image_copy E li) (\<lambda>logo.
             py_bind (Image_thumbnail E logo (max_size, max_size)) (\<lambda>_.
             py_bind (deref logo) (\<lambda>im.
             py_bind (if mode im \<noteq> RGBA then Image_convert E logo RGBA else py_return logo)
               (\<lambda>logo. py_return (Some logo))))))
            (\<lambda>e. py_return None))"

subsection \<open>draw_text_with_outline\<close>

definition draw_text_with_outline ::
  "env \<Rightarrow> nat \<Rightarrow> string \<Rightarrow> int \<Rightarrow> int \<Rightarrow> font \<Rightarrow> string \<Rightarrow> string \<Rightarrow> bool \<Rightarrow> unit py" where
  "draw_text_with_outline E draw text x y font fill_color outline_color center =
     py_bind
       (if center
        then py_try
               (py_bind (py_lift (textbbox E font text)) (\<lambda>bbox.
                  py_return (x - (fst (snd (snd bbox)) - fst bbox) div 2)))
               (\<lambda>e. if e = AttributeError
                    then py_bind (py_lift (textsize E font text)) (\<lambda>wh.
                           py_return (x - fst wh div 2))
                    else py_raise e)
        else py_return x) (\<lambda>x.
     py_bind
       (for_each (py_range (- 2) 3) (\<lambda>dx.
          for_each (py_range (- 2) 3) (\<lambda>dy.
            if dx \<noteq> 0 \<or> dy \<noteq> 0
            then Draw_text E draw (x + dx, y + dy) text font outline_color
            else py_return ()))) (\<lambda>_.
     Draw_text E draw (x, y) text font fill_color))"

subsection \<open>apply_text_layout\<close>

fun details_loop ::
  "env \<Rightarrow> nat \<Rightarrow> string list \<Rightarrow> int \<Rightarrow> font \<Rightarrow> int \<Rightarrow> int \<Rightarrow> int py" where
  "details_loop E draw [] x details_font details_size y_pos = py_return y_pos"
| "details_loop E draw (line # rest) x details_font details_size y_pos =
     py_bind (draw_text_with_outline E draw line x y_pos details_font
                ''lightgray'' ''black'' True) (\<lambda>_.
     details_loop E draw rest x details_font details_size
       (y_pos + py_int (fmul (py_float details_size) (py_lit (15 / 10)))))"

definition apply_text_layout ::
  "env \<Rightarrow> nat \<Rightarrow> string \<Rightarrow> string \<Rightarrow> nat option \<Rightarrow> nat py" where
  "apply_text_layout E img subtitle details logo =
     py_bind (Image_copy E img) (\<lambda>c.
     py_bind (Image_convert E c RGBA) (\<lambda>poster.
     py_bind (deref poster) (\<lambda>p.
     let width = int (xsize p); height = int (ysize p) in
     py_bind (Image_new E RGBA (nat width, nat height) (0, 0, 0, 0)) (\<lambda>overlay.
     let draw = overlay in
     py_bind (Image_new E RGBA (nat width, nat height) (0, 0, 0, 80)) (\<lambda>color_overlay.
     py_bind (Image_alpha_composite E poster color_overlay) (\<lambda>poster.
     let base_size = min width height div 15;
         subtitle_size = py_int (fmul (py_float base_size) (py_lit (8 / 10)));
         details_size = py_int (fmul (py_float base_size) (py_lit (5 / 10)))
     in
     py_bind (get_font E subtitle_size) (\<lambda>subtitle_font.
     py_bind (get_font E details_size) (\<lambda>details_font.
     let y_pos = height div 3;
         spacing = py_int (fmul (py_float base_size) (py_lit (12 / 10)))
     in
     py_bind (if subtitle \<noteq> []
              then py_bind (draw_text_with_outline E draw subtitle (width div 2) y_pos
                              subtitle_font ''white'' ''black'' True) (\<lambda>_.
                   py_return (y_pos + spacing))
              else py_return y_pos) (\<lambda>y_pos.
     py_bind (if details \<noteq> []
              then let details_lines =
                         map strip (filter (\<lambda>line. strip line \<noteq> [])
                                           (split_on (CHR 0x0A) details))
                   in details_loop E draw details_lines (width div 2) details_font
                        details_size y_pos
              else py_return y_pos) (\<lambda>y_pos.
     py_bind (case logo of
                Some lg \<Rightarrow>
                  py_bind (deref lg) (\<lambda>l.
                    Image_paste E poster lg (width - int (xsize l) - 40, 40) lg)
              | None \<Rightarrow> py_return ()) (\<lambda>_.
     py_bind (Image_alpha_composite E poster overlay) (\<lambda>final_poster.
     Image_convert E final_poster RGB))))))))))))"

subsection \<open>generate_simple_poster\<close>

definition aspect_ratios :: "(string \<times> nat \<times> nat) list" where
  "aspect_ratios =
     [(''1:1 - Square'', (1024, 1024)),
      (''2:3 - Portrait'', (683, 1024)),
      (''3:2 - Landscape'', (1024, 683)),
      (''3:4 - Poster'', (768, 1024)),
      (''16:9 - Widescreen'', (1024, 576))]"

definition generate_simple_poster ::
  "env \<Rightarrow> string \<Rightarrow> string \<Rightarrow> string \<Rightarrow> nat option \<Rightarrow> string \<Rightarrow> nat py" where
  "generate_simple_poster E prompt subtitle details logo_image aspect_ratio =
     (let wh = (case map_of aspect_ratios aspect_ratio of
                  Some d \<Rightarrow> d
                | None \<Rightarrow> (1024, 1024));
          width = fst wh; height = snd wh
      in py_bind (create_background_via_api E prompt width height 3) (\<lambda>background.
         py_bind (process_logo E logo_image 200) (\<lambda>processed_logo.
         apply_text_layout E background subtitle details processed_logo)))"

section \<open>Reference environments\<close>

text \<open>
  \<open>offline_env\<close>: no API token, no network, the DejaVu font not installed, a built-in font
  with glyphs of 6 by 11 pixels, integer alpha blending, nearest-neighbour resampling and
  no failing Pillow call. \<open>loading_env\<close> differs in that a token is set and the endpoint
  answers every request with status 503 (model loading).
\<close>

definition blend :: "pixel \<Rightarrow> pixel \<Rightarrow> int \<Rightarrow> pixel" where
  "blend dst src m =
     (case dst of (dr, dg, db, da) \<Rightarrow> case src of (sr, sg, sb, sa) \<Rightarrow>
        ((sr * m + dr * (255 - m)) div 255, (sg * m + dg * (255 - m)) div 255,
         (sb * m + db * (255 - m)) div 255, (sa * m + da * (255 - m)) div 255))"

definition offline_env :: env where
  "offline_env =
     \<lparr>getenv = (\<lambda>name. None),
      post = (\<lambda>i prompt w h. Inl RequestException),
      decode = (\<lambda>bytes. new_v RGB (1, 1) (0, 0, 0, 255)),
      truetype = (\<lambda>name sz. Inl OSError),
      textbbox = (\<lambda>f t. Inr (0, 0, 6 * int (length t), 11)),
      textsize = (\<lambda>f t. Inr (6 * int (length t), 11)),
      glyphs = (\<lambda>f t x y. if 0 \<le> x \<and> x < 6 * int (length t) \<and> 0 \<le> y \<and> y < 11
                           then 255 else 0),
      getrgb = (\<lambda>name. if name = ''white'' then (255, 255, 255, 255)
                       else if name = ''lightgray'' then (211, 211, 211, 255)
                       else (0, 0, 0, 255)),
      over = (\<lambda>src dst. blend dst src (snd (snd (snd src)))),
      masked = blend,
      recode = (\<lambda>m m' p. (fst p, fst (snd p), fst (snd (snd p)), 255)),
      resample = (\<lambda>im sz x y. pixels im (x * int (xsize im) div int (fst sz))
                                        (y * int (ysize im) div int (snd sz))),
      fault = (\<lambda>c im. None)\<rparr>"

definition loading_env :: env where
  "loading_env =
     offline_env
       \<lparr>getenv := (\<lambda>name. if name = ''HF_TOKEN'' then Some ''hf_token'' else None),
        post := (\<lambda>i prompt w h.
                   Inr \<lparr>status_code = 503, content = [], body_text = ''loading''\<rparr>)\<rparr>"


definition strict_font_env :: env where
  "strict_font_env =
     offline_env
       \<lparr>truetype := (\<lambda>name sz. if sz \<le> 0 then Inl ValueError else Inr (FreeTypeFont name sz))\<rparr>"

text \<open>
  \<open>faulty_env\<close>: as \<open>offline_env\<close>, but every call of \<open>Image.thumbnail\<close> fails with
  \<open>OSError\<close>.
\<close>

definition faulty_env :: env where
  "faulty_env =
     offline_env\<lparr>fault := (\<lambda>c im. if c = Call_thumbnail then Some OSError else None)\<rparr>"

definition init :: state where
  "init = \<lparr>heap = [], drawn = []\<rparr>"

section \<open>Notions used in the properties\<close>

text \<open>
  Conditions on the environment: no Pillow call fails (\<open>no_faults\<close>), a font that cannot
  be loaded fails with \<open>OSError\<close> (\<open>fonts_ok\<close>), and a text can be measured, by
  \<open>textbbox\<close> or, where that method does not exist, by \<open>textsize\<close> (\<open>metrics_ok\<close>).
  The remaining definitions name what the program computes under these conditions: the
  font it gets, the width it measures, the \<open>draw.text\<close> calls it makes and the images
  these calls produce.
\<close>

definition no_faults :: "env \<Rightarrow> bool" where
  "no_faults E = (\<forall>c im. fault E c im = None)"

definition fonts_ok :: "env \<Rightarrow> bool" where
  "fonts_ok E = (\<forall>name sz. case truetype E name sz of Inl e \<Rightarrow> e = OSError | Inr f \<Rightarrow> True)"

definition metrics_ok :: "env \<Rightarrow> bool" where
  "metrics_ok E =
     (\<forall>f t. case textbbox E f t of
              Inr b \<Rightarrow> True
            | Inl e \<Rightarrow> e = AttributeError \<and> (case textsize E f t of Inr wh \<Rightarrow> True | Inl e' \<Rightarrow> False))"

definition font_loads :: "env \<Rightarrow> int \<Rightarrow> bool" where
  \<comment> \<open>at this size the font is loaded, or is missing (\<open>OSError\<close>)\<close>
  "font_loads E sz =
     (case truetype E ''DejaVuSans.ttf'' sz of Inl e \<Rightarrow> e = OSError | Inr f \<Rightarrow> True)"

definition fonts_ok_pos :: "env \<Rightarrow> bool" where
  \<comment> \<open>\<open>fonts_ok\<close> at the positive sizes only; at size 0 a font loader may fail otherwise\<close>
  "fonts_ok_pos E =
     (\<forall>name sz. 0 < sz \<longrightarrow>
        (case truetype E name sz of Inl e \<Rightarrow> e = OSError | Inr f \<Rightarrow> True))"

definition benign :: "env \<Rightarrow> bool" where
  "benign E = (no_faults E \<and> fonts_ok E \<and> metrics_ok E)"

definition font_of :: "env \<Rightarrow> int \<Rightarrow> font" where
  "font_of E sz = (case truetype E ''DejaVuSans.ttf'' sz of Inr f \<Rightarrow> f | Inl e \<Rightarrow> DefaultFont)"

definition text_width :: "env \<Rightarrow> font \<Rightarrow> string \<Rightarrow> int" where
  "text_width E f t =
     (case textbbox E f t of
        Inr b \<Rightarrow> fst (snd (snd b)) - fst b
      | Inl e \<Rightarrow> (case textsize E f t of Inr wh \<Rightarrow> fst wh | Inl e' \<Rightarrow> 0))"

definition outline_offsets :: "(int \<times> int) list" where
  "outline_offsets =
     [(- 2, - 2), (- 2, - 1), (- 2, 0), (- 2, 1), (- 2, 2),
      (- 1, - 2), (- 1, - 1), (- 1, 0), (- 1, 1), (- 1, 2),
      (0, - 2), (0, - 1), (0, 1), (0, 2),
      (1, - 2), (1, - 1), (1, 0), (1, 1), (1, 2),
      (2, - 2), (2, - 1), (2, 0), (2, 1), (2, 2)]"

definition outlined_calls ::
  "nat \<Rightarrow> string \<Rightarrow> int \<Rightarrow> int \<Rightarrow> font \<Rightarrow> string \<Rightarrow> string \<Rightarrow> text_call list" where
  "outlined_calls draw t x y f fill_color outline_color =
     map (\<lambda>d. \<lparr>target = draw, xy = (x + fst d, y + snd d), label = t, face = f,
                ink = outline_color\<rparr>) outline_offsets
     @ [\<lparr>target = draw, xy = (x, y), label = t, face = f, ink = fill_color\<rparr>]"

definition render :: "env \<Rightarrow> image \<Rightarrow> text_call list \<Rightarrow> image" where
  "render E im cs = foldl (\<lambda>im c. text_v E im (xy c) (label c) (face c) (ink c)) im cs"

definition after_calls :: "env \<Rightarrow> nat \<Rightarrow> text_call list \<Rightarrow> state \<Rightarrow> state" where
  "after_calls E d cs s =
     s\<lparr>heap := (heap s)[d := render E (heap s ! d) cs], drawn := drawn s @ cs\<rparr>"


fun details_calls ::
  "env \<Rightarrow> nat \<Rightarrow> string list \<Rightarrow> int \<Rightarrow> font \<Rightarrow> int \<Rightarrow> int \<Rightarrow> text_call list" where
  "details_calls E d [] x f step y = []"
| "details_calls E d (l # ls) x f step y =
     outlined_calls d l (x - text_width E f l div 2) y f ''lightgray'' ''black''
     @ details_calls E d ls x f step (y + step)"

definition details_lines_of :: "string \<Rightarrow> string list" where
  "details_lines_of details =
     (if details \<noteq> []
      then map strip (filter (\<lambda>line. strip line \<noteq> []) (split_on (CHR 0x0A) details))
      else [])"

definition line_step :: "int \<Rightarrow> int" where
  "line_step details_size = py_int (fmul (py_float details_size) (py_lit (15 / 10)))"

definition layout_calls :: "env \<Rightarrow> nat \<Rightarrow> int \<Rightarrow> int \<Rightarrow> string \<Rightarrow> string \<Rightarrow> text_call list" where
  "layout_calls E d width height subtitle details =
     (let base_size = min width height div 15;
          subtitle_size = py_int (fmul (py_float base_size) (py_lit (8 / 10)));
          details_size = py_int (fmul (py_float base_size) (py_lit (5 / 10)));
          y_pos = height div 3;
          spacing = py_int (fmul (py_float base_size) (py_lit (12 / 10)))
      in (if subtitle \<noteq> []
          then outlined_calls d subtitle
                 (width div 2 - text_width E (font_of E subtitle_size) subtitle div 2) y_pos
                 (font_of E subtitle_size) ''white'' ''black''
          else [])
         @ details_calls E d (details_lines_of details) (width div 2)
             (font_of E details_size) (line_step details_size)
             (if subtitle \<noteq> [] then y_pos + spacing else y_pos))"

definition darkened :: "env \<Rightarrow> image \<Rightarrow> image" where
  "darkened E bg =
     alpha_composite_v E (convert_v E RGBA bg)
       (new_v RGBA (xsize bg, ysize bg) (0, 0, 0, 80))"

definition with_logo :: "env \<Rightarrow> image \<Rightarrow> image option \<Rightarrow> image" where
  "with_logo E base logo =
     (case logo of
        None \<Rightarrow> base
      | Some l \<Rightarrow> paste_v E base l (int (xsize base) - int (xsize l) - 40, 40) l)"

definition text_layer :: "env \<Rightarrow> nat \<Rightarrow> image \<Rightarrow> string \<Rightarrow> string \<Rightarrow> image" where
  "text_layer E d bg subtitle details =
     render E (new_v RGBA (xsize bg, ysize bg) (0, 0, 0, 0))
       (layout_calls E d (int (xsize bg)) (int (ysize bg)) subtitle details)"



text \<open>
  \<open>lerp\<close> is the channel value that \<open>create_gradient_background\<close> computes for a row,
  in floats. \<open>spec_channel\<close> follows the words of the spec (4.1) instead: the ratio
  \<open>y / height\<close> and the value \<open>colorTop * (1 - ratio) + colorBottom * ratio\<close> are exact,
  and the value is truncated to an integer.
\<close>

definition spec_channel :: "int \<Rightarrow> int \<Rightarrow> nat \<Rightarrow> nat \<Rightarrow> int" where
  "spec_channel a b y height =
     (let ratio = (of_nat y / of_nat height :: rat)
      in py_int (of_int a * (1 - ratio) + of_int b * ratio))"

definition lerp :: "int \<Rightarrow> int \<Rightarrow> nat \<Rightarrow> nat \<Rightarrow> int" where
  "lerp a b y height =
     (let ratio = truediv (int y) (int height)
      in py_int (fadd (fmul (py_float a) (fsub (py_float 1) ratio)) (fmul (py_float b) ratio)))"

definition gradient_rows ::
  "image \<Rightarrow> nat \<Rightarrow> nat \<Rightarrow> int \<times> int \<times> int \<Rightarrow> int \<times> int \<times> int \<Rightarrow> nat list \<Rightarrow> image" where
  "gradient_rows im width height color1 color2 ys =
     foldl (\<lambda>im y. line_v im (0, int y) (int width, int y)
              (lerp (fst color1) (fst color2) y height,
               lerp (fst (snd color1)) (fst (snd color2)) y height,
               lerp (snd (snd color1)) (snd (snd color2)) y height)) im ys"


text \<open>
  A state with a background of 600 by 450 pixels and a logo of 20 by 10 pixels, and a
  state with a background of 20 by 20 pixels.
\<close>

definition small_state :: state where
  "small_state = \<lparr>heap = [new_v RGB (20, 20) (10, 20, 30, 255)], drawn = []\<rparr>"


definition demo_state :: state where
  "demo_state =
     \<lparr>heap = [new_v RGB (600, 450) (10, 20, 30, 255), new_v RGBA (20, 10) (200, 0, 0, 128)],
      drawn = []\<rparr>"


text \<open>
  \<open>process_logo_body\<close> is the body of the \<open>try\<close> statement of \<open>process_logo\<close> (lines
  83 to 87). \<open>logo_state\<close> holds one image of 400 by 300 pixels without alpha band.
\<close>

definition process_logo_body :: "env \<Rightarrow> nat \<Rightarrow> nat \<Rightarrow> nat option py" where
  "process_logo_body E li max_size =
     py_bind (Image_copy E li) (\<lambda>logo.
     py_bind (Image_thumbnail E logo (max_size, max_size)) (\<lambda>_.
     py_bind (deref logo) (\<lambda>im.
     py_bind (if mode im \<noteq> RGBA then Image_convert E logo RGBA else py_return logo)
       (\<lambda>logo. py_return (Some logo)))))"


text \<open>
  \<open>frame n m Q\<close>: run from a state whose heap holds at least \<open>n\<close> objects, the
  computation \<open>m\<close> leaves the first \<open>n\<close> objects as they are, whether it returns or
  raises, and a value it returns satisfies \<open>Q\<close>.
\<close>

definition frame :: "nat \<Rightarrow> 'a py \<Rightarrow> ('a \<Rightarrow> bool) \<Rightarrow> bool" where
  "frame n m Q =
     (\<forall>s. n \<le> length (heap s) \<longrightarrow>
        n \<le> length (heap (snd (m s))) \<and> take n (heap (snd (m s))) = take n (heap s)
        \<and> (case fst (m s) of Inl e \<Rightarrow> True | Inr x \<Rightarrow> Q x))"

section \<open>Properties\<close>

subsection \<open>Running the program step by step\<close>

lemma py_bind_return [simp]: "py_bind (py_return x) f = f x"
  by (rule ext) (simp add: py_bind_def py_return_def)

lemma py_bind_raise [simp]: "py_bind (py_raise e) f = py_raise e"
  by (rule ext) (simp add: py_bind_def py_raise_def)

lemma py_bind_ok: "m s = (Inr x, s') \<Longrightarrow> py_bind m f s = f x s'"
  by (simp add: py_bind_def)

lemma py_bind_err: "m s = (Inl e, s') \<Longrightarrow> py_bind m f s = (Inl e, s')"
  by (simp add: py_bind_def)

lemma guard_ok [simp]: "no_faults E \<Longrightarrow> guard E c im = py_return ()"
  by (simp add: guard_def no_faults_def)

lemma heap_after_calls [simp]: "length (heap (after_calls E d cs s)) = length (heap s)"
  by (simp add: after_calls_def)

lemma after_calls_Nil [simp]: "after_calls E d [] s = s"
  by (simp add: after_calls_def render_def)

lemma after_calls_append [simp]:
  "d < length (heap s) \<Longrightarrow> after_calls E d cs2 (after_calls E d cs1 s) = after_calls E d (cs1 @ cs2) s"
  by (simp add: after_calls_def render_def)

lemma Draw_text_ok:
  "no_faults E \<Longrightarrow> d < length (heap s) \<Longrightarrow>
   Draw_text E d p t f c s =
     (Inr (), after_calls E d [\<lparr>target = d, xy = p, label = t, face = f, ink = c\<rparr>] s)"
  by (simp add: Draw_text_def deref_def assign_def py_bind_def py_return_def after_calls_def render_def)

lemma py_range_m2_3: "py_range (- 2) 3 = [- 2, - 1, 0, 1, 2]"
  by (simp add: py_range_def upto.simps)

lemma outline_loop:
  assumes "no_faults E" "d < length (heap s)"
  shows "py_bind
       (for_each (py_range (- 2) 3) (\<lambda>dx.
          for_each (py_range (- 2) 3) (\<lambda>dy.
            if dx \<noteq> 0 \<or> dy \<noteq> 0
            then Draw_text E d (x + dx, y + dy) t f oc
            else py_return ()))) (\<lambda>_.
     Draw_text E d (x, y) t f fc) s = (Inr (), after_calls E d (outlined_calls d t x y f fc oc) s)"
  using assms
  by (simp add: py_range_m2_3 py_bind_def Draw_text_ok outlined_calls_def outline_offsets_def py_return_def)

lemma center_x:
  assumes "metrics_ok E"
  shows "py_try
               (py_bind (py_lift (textbbox E f t)) (\<lambda>bbox.
                  py_return (x - (fst (snd (snd bbox)) - fst bbox) div 2)))
               (\<lambda>e. if e = AttributeError
                    then py_bind (py_lift (textsize E f t)) (\<lambda>wh.
                           py_return (x - fst wh div 2))
                    else py_raise e) s = (Inr (x - text_width E f t div 2), s)"
proof -
  from assms have m: "case textbbox E f t of
              Inr b \<Rightarrow> True
            | Inl e \<Rightarrow> e = AttributeError \<and> (case textsize E f t of Inr wh \<Rightarrow> True | Inl e' \<Rightarrow> False)"
    unfolding metrics_ok_def by blast
  show ?thesis
  proof (cases "textbbox E f t")
    case (Inr b)
    then show ?thesis
      by (simp add: py_try_def py_bind_def py_lift_def py_return_def text_width_def)
  next
    case (Inl e)
    with m obtain wh where "e = AttributeError" "textsize E f t = Inr wh"
      by (auto split: sum.splits)
    with Inl show ?thesis
      by (simp add: py_try_def py_bind_def py_lift_def py_return_def text_width_def)
  qed
qed

lemma draw_text_with_outline_ok:
  assumes "no_faults E" "metrics_ok E" "d < length (heap s)"
  shows "draw_text_with_outline E d t x y f fc oc ctr s =
     (Inr (), after_calls E d
        (outlined_calls d t (if ctr then x - text_width E f t div 2 else x) y f fc oc) s)"
proof -
  define m :: "int py" where "m = (if ctr
        then py_try
               (py_bind (py_lift (textbbox E f t)) (\<lambda>bbox.
                  py_return (x - (fst (snd (snd bbox)) - fst bbox) div 2)))
               (\<lambda>e. if e = AttributeError
                    then py_bind (py_lift (textsize E f t)) (\<lambda>wh.
                           py_return (x - fst wh div 2))
                    else py_raise e)
        else py_return x)"
  have first: "m s = (Inr (if ctr then x - text_width E f t div 2 else x), s)"
    by (simp add: m_def center_x [OF assms(2)] py_return_def)
  have "draw_text_with_outline E d t x y f fc oc ctr s =
        py_bind
       (for_each (py_range (- 2) 3) (\<lambda>dx.
          for_each (py_range (- 2) 3) (\<lambda>dy.
            if dx \<noteq> 0 \<or> dy \<noteq> 0
            then Draw_text E d ((if ctr then x - text_width E f t div 2 else x) + dx, y + dy) t f oc
            else py_return ()))) (\<lambda>_.
     Draw_text E d ((if ctr then x - text_width E f t div 2 else x), y) t f fc) s"
    unfolding draw_text_with_outline_def m_def [symmetric]
    by (rule py_bind_ok [of m, OF first])
  then show ?thesis
    by (simp only: outline_loop [OF assms(1,3)])
qed

lemma details_loop_ok:
  assumes "no_faults E" "metrics_ok E"
  shows "d < length (heap s) \<Longrightarrow>
     details_loop E d ls x f dsz y s =
       (Inr (y + int (length ls) * line_step dsz),
        after_calls E d (details_calls E d ls x f (line_step dsz) y) s)"
proof (induction ls arbitrary: y s)
  case Nil
  then show ?case by (simp add: py_return_def)
next
  case (Cons l ls)
  show ?case
    using Cons.prems
    by (simp add: py_bind_def draw_text_with_outline_ok [OF assms] Cons.IH line_step_def
        algebra_simps)
qed

lemma convert_v_fields [simp]:
  "mode (convert_v E m im) = m" "xsize (convert_v E m im) = xsize im"
  "ysize (convert_v E m im) = ysize im"
  by (simp_all add: convert_v_def)

lemma new_v_fields [simp]:
  "mode (new_v m sz c) = m" "xsize (new_v m sz c) = fst sz" "ysize (new_v m sz c) = snd sz"
  by (simp_all add: new_v_def)

lemma alpha_composite_v_fields [simp]:
  "mode (alpha_composite_v E a b) = mode a" "xsize (alpha_composite_v E a b) = xsize a"
  "ysize (alpha_composite_v E a b) = ysize a"
  by (simp_all add: alpha_composite_v_def)

lemma paste_v_fields [simp]:
  "mode (paste_v E a b p c) = mode a" "xsize (paste_v E a b p c) = xsize a"
  "ysize (paste_v E a b p c) = ysize a"
  by (simp_all add: paste_v_def)

lemma text_v_fields [simp]:
  "mode (text_v E im p t f c) = mode im" "xsize (text_v E im p t f c) = xsize im"
  "ysize (text_v E im p t f c) = ysize im"
  by (simp_all add: text_v_def)

lemma render_fields [simp]:
  "mode (render E im cs) = mode im" "xsize (render E im cs) = xsize im"
  "ysize (render E im cs) = ysize im"
  by (induction cs arbitrary: im; simp add: render_def)+

lemma render_append [simp]: "render E (render E im a) b = render E im (a @ b)"
  by (simp add: render_def)

lemma render_Nil [simp]: "render E im [] = im"
  by (simp add: render_def)

lemma darkened_fields [simp]:
  "mode (darkened E bg) = RGBA" "xsize (darkened E bg) = xsize bg"
  "ysize (darkened E bg) = ysize bg"
  by (simp_all add: darkened_def)

lemma with_logo_fields [simp]:
  "mode (with_logo E b l) = mode b" "xsize (with_logo E b l) = xsize b"
  "ysize (with_logo E b l) = ysize b"
  by (simp_all add: with_logo_def split: option.splits)

lemma deref_ok: "a < length (heap s) \<Longrightarrow> deref a s = (Inr (heap s ! a), s)"
  by (simp add: deref_def)

lemma Image_copy_ok:
  "no_faults E \<Longrightarrow> a < length (heap s) \<Longrightarrow>
   Image_copy E a s = (Inr (length (heap s)), s\<lparr>heap := heap s @ [heap s ! a]\<rparr>)"
  by (simp add: Image_copy_def deref_def py_bind_def alloc_def)

lemma Image_convert_ok:
  "no_faults E \<Longrightarrow> a < length (heap s) \<Longrightarrow>
   Image_convert E a m s =
     (Inr (length (heap s)), s\<lparr>heap := heap s @ [convert_v E m (heap s ! a)]\<rparr>)"
  by (simp add: Image_convert_def deref_def py_bind_def alloc_def)

lemma Image_new_ok:
  "no_faults E \<Longrightarrow>
   Image_new E m sz c s = (Inr (length (heap s)), s\<lparr>heap := heap s @ [new_v m sz c]\<rparr>)"
  by (simp add: Image_new_def alloc_def)

lemma Image_alpha_composite_ok:
  "no_faults E \<Longrightarrow> a < length (heap s) \<Longrightarrow> b < length (heap s) \<Longrightarrow>
   mode (heap s ! a) = RGBA \<Longrightarrow> mode (heap s ! b) = RGBA \<Longrightarrow>
   xsize (heap s ! a) = xsize (heap s ! b) \<Longrightarrow> ysize (heap s ! a) = ysize (heap s ! b) \<Longrightarrow>
   Image_alpha_composite E a b s =
     (Inr (length (heap s)),
      s\<lparr>heap := heap s @ [alpha_composite_v E (heap s ! a) (heap s ! b)]\<rparr>)"
  by (simp add: Image_alpha_composite_def deref_def py_bind_def alloc_def)

lemma Image_paste_ok:
  "no_faults E \<Longrightarrow> a < length (heap s) \<Longrightarrow> b < length (heap s) \<Longrightarrow> c < length (heap s) \<Longrightarrow>
   mode (heap s ! c) \<noteq> RGB \<Longrightarrow>
   Image_paste E a b pos c s =
     (Inr (), s\<lparr>heap := (heap s)[a := paste_v E (heap s ! a) (heap s ! b) pos (heap s ! c)]\<rparr>)"
  by (simp add: Image_paste_def deref_def py_bind_def assign_def)

lemma get_font_ok: "fonts_ok E \<Longrightarrow> get_font E sz s = (Inr (font_of E sz), s)"
proof -
  assume "fonts_ok E"
  then have "case truetype E ''DejaVuSans.ttf'' sz of Inl e \<Rightarrow> e = OSError | Inr f \<Rightarrow> True"
    unfolding fonts_ok_def by blast
  then show ?thesis
    by (auto simp: get_font_def py_try_def py_lift_def py_return_def font_of_def split: sum.splits)
qed

lemma get_font_loads: "font_loads E sz \<Longrightarrow> get_font E sz s = (Inr (font_of E sz), s)"
  by (auto simp: font_loads_def get_font_def py_try_def py_lift_def py_return_def font_of_def
      split: sum.splits)

lemma apply_text_layout_run:
  assumes nf: "no_faults E" and mo: "metrics_ok E" and "img < length (heap s)"
    and "\<forall>l. logo = Some l \<longrightarrow> l < length (heap s) \<and> mode (heap s ! l) \<noteq> RGB"
    and "font_loads E (py_int (fmul (py_float
           (min (int (xsize (heap s ! img))) (int (ysize (heap s ! img))) div 15))
           (py_lit (8 / 10))))"
    and "font_loads E (py_int (fmul (py_float
           (min (int (xsize (heap s ! img))) (int (ysize (heap s ! img))) div 15))
           (py_lit (5 / 10))))"
  shows "apply_text_layout E img subtitle details logo s =
     (let bg = heap s ! img; n = length (heap s);
          layer = text_layer E (n + 2) bg subtitle details;
          base = with_logo E (darkened E bg) (map_option (\<lambda>l. heap s ! l) logo);
          flat = alpha_composite_v E base layer
      in (Inr (n + 6),
          s\<lparr>heap := heap s @ [bg, convert_v E RGBA bg, layer,
                               new_v RGBA (xsize bg, ysize bg) (0, 0, 0, 80),
                               base, flat, convert_v E RGB flat],
             drawn := drawn s @
               layout_calls E (n + 2) (int (xsize bg)) (int (ysize bg)) subtitle details\<rparr>))"
proof (cases logo)
  case None
  show ?thesis
    using assms(3,5,6)
    by (simp add: apply_text_layout_def None py_bind_def Image_copy_ok [OF nf] Image_convert_ok [OF nf]
        Image_new_ok [OF nf] Image_alpha_composite_ok [OF nf] get_font_loads deref_ok
        draw_text_with_outline_ok [OF nf mo] details_loop_ok [OF nf mo] py_return_def
        nth_append list_update_append Let_def layout_calls_def details_lines_of_def text_layer_def after_calls_def
        darkened_def with_logo_def line_step_def)
next
  case (Some l)
  with assms(4) have l: "l < length (heap s)" "mode (heap s ! l) \<noteq> RGB" by auto
  show ?thesis
    using assms(3,5,6) l
    by (simp add: apply_text_layout_def Some py_bind_def Image_copy_ok [OF nf] Image_convert_ok [OF nf]
        Image_new_ok [OF nf] Image_alpha_composite_ok [OF nf] get_font_loads deref_ok
        Image_paste_ok [OF nf]
        draw_text_with_outline_ok [OF nf mo] details_loop_ok [OF nf mo] py_return_def
        nth_append list_update_append Let_def layout_calls_def details_lines_of_def text_layer_def after_calls_def
        darkened_def with_logo_def line_step_def)
qed

lemma apply_text_layout_ok:
  assumes "benign E" "img < length (heap s)"
    and "\<forall>l. logo = Some l \<longrightarrow> l < length (heap s) \<and> mode (heap s ! l) \<noteq> RGB"
  shows "apply_text_layout E img subtitle details logo s =
     (let bg = heap s ! img; n = length (heap s);
          layer = text_layer E (n + 2) bg subtitle details;
          base = with_logo E (darkened E bg) (map_option (\<lambda>l. heap s ! l) logo);
          flat = alpha_composite_v E base layer
      in (Inr (n + 6),
          s\<lparr>heap := heap s @ [bg, convert_v E RGBA bg, layer,
                               new_v RGBA (xsize bg, ysize bg) (0, 0, 0, 80),
                               base, flat, convert_v E RGB flat],
             drawn := drawn s @
               layout_calls E (n + 2) (int (xsize bg)) (int (ysize bg)) subtitle details\<rparr>))"
proof -
  from assms(1) have nf: "no_faults E" and fo: "fonts_ok E" and mo: "metrics_ok E"
    by (simp_all add: benign_def)
  have fl: "font_loads E sz" for sz
    using fo unfolding fonts_ok_def font_loads_def by blast
  show ?thesis
    by (rule apply_text_layout_run [OF nf mo assms(2,3) fl fl])
qed

text \<open>The reference environment meets the conditions.\<close>

lemma no_faults_offline: "no_faults offline_env"
  by (simp add: no_faults_def offline_env_def)

lemma fonts_ok_offline: "fonts_ok offline_env"
  by (simp add: fonts_ok_def offline_env_def)

lemma metrics_ok_offline: "metrics_ok offline_env"
  by (simp add: metrics_ok_def offline_env_def)

lemma benign_offline: "benign offline_env"
  by (simp add: benign_def no_faults_offline fonts_ok_offline metrics_ok_offline)

subsection \<open>Floats that are exact\<close>

lemma pow2_pos [simp]: "0 < (2::rat) powi e"
  by (simp add: power_int_def)

lemma pow2_less_iff: "(2::rat) powi m < 2 powi n \<longleftrightarrow> m < n"
proof
  assume lt: "(2::rat) powi m < 2 powi n"
  show "m < n"
  proof (rule ccontr)
    assume "\<not> m < n"
    then consider "n = m" | "n < m" by linarith
    then show False
    proof cases
      case 1
      with lt show False by simp
    next
      case 2
      then have "(2::rat) powi n < 2 powi m"
        by (rule power_int_strict_increasing) simp
      with lt show False by simp
    qed
  qed
next
  assume "m < n"
  then show "(2::rat) powi m < 2 powi n"
    by (rule power_int_strict_increasing) simp
qed

lemma ilog2_bounds:
  assumes "0 < a"
  shows "2 powi (ilog2 a) \<le> a \<and> a < 2 powi (ilog2 a + 1)"
proof -
  obtain p q where pq: "quotient_of a = (p, q)" by (cases "quotient_of a")
  then have q: "0 < q" by (rule quotient_of_denom_pos)
  have a: "a = of_int p / of_int q" using pq by (rule quotient_of_div)
  with assms q have p: "0 < p" by (simp add: zero_less_divide_iff)
  let ?bp = "bitlen p" and ?bq = "bitlen q"
  have bp1: "1 \<le> ?bp" and bq1: "1 \<le> ?bq"
    using p q by (simp_all add: bitlen_alt_def)
  from bitlen_bounds [OF p] have ip: "2 ^ nat (?bp - 1) \<le> p" "p < 2 ^ nat ?bp" by simp_all
  have "(of_int (2 ^ nat (?bp - 1)) :: rat) \<le> of_int p" using ip(1) by (simp only: of_int_le_iff)
  then have P1: "(2::rat) powi (?bp - 1) \<le> of_int p" using bp1 by (simp add: power_int_def)
  have "(of_int p :: rat) < of_int (2 ^ nat ?bp)" using ip(2) by (simp only: of_int_less_iff)
  then have P2: "of_int p < (2::rat) powi ?bp" using bp1 by (simp add: power_int_def)
  from bitlen_bounds [OF q] have iq: "2 ^ nat (?bq - 1) \<le> q" "q < 2 ^ nat ?bq" by simp_all
  have "(of_int (2 ^ nat (?bq - 1)) :: rat) \<le> of_int q" using iq(1) by (simp only: of_int_le_iff)
  then have Q1: "(2::rat) powi (?bq - 1) \<le> of_int q" using bq1 by (simp add: power_int_def)
  have "(of_int q :: rat) < of_int (2 ^ nat ?bq)" using iq(2) by (simp only: of_int_less_iff)
  then have Q2: "of_int q < (2::rat) powi ?bq" using bq1 by (simp add: power_int_def)
  have qpos: "0 < (of_int q :: rat)" using q by simp
  have up: "a < 2 powi (?bp - ?bq + 1)"
  proof -
    have "a * of_int q = of_int p" using a qpos by simp
    also have "\<dots> < 2 powi ?bp" by (rule P2)
    also have "\<dots> = (2::rat) powi (?bp - ?bq + 1) * 2 powi (?bq - 1)"
      by (simp add: power_int_add [symmetric])
    also have "\<dots> \<le> 2 powi (?bp - ?bq + 1) * of_int q"
      using Q1 by (simp add: mult_left_mono)
    finally show ?thesis using qpos by simp
  qed
  have lo: "2 powi (?bp - ?bq - 1) < a"
  proof -
    have "(2::rat) powi (?bp - ?bq - 1) * of_int q < 2 powi (?bp - ?bq - 1) * 2 powi ?bq"
      using Q2 by (simp add: mult_strict_left_mono)
    also have "\<dots> = 2 powi (?bp - 1)"
      by (simp add: power_int_add [symmetric])
    also have "\<dots> \<le> of_int p" by (rule P1)
    also have "\<dots> = a * of_int q" using a qpos by simp
    finally show ?thesis using qpos by simp
  qed
  show ?thesis
    using up lo by (auto simp: ilog2_def pq Let_def not_le less_imp_le)
qed

lemma rne_of_int [simp]: "rne (of_int m) = m"
  by (simp add: rne_def)

lemma fl_exact:
  assumes "\<bar>k\<bar> < 2 ^ 53"
  shows "fl (of_int k * 2 powi j) = of_int k * 2 powi j"
proof (cases "k = 0")
  case True
  then show ?thesis by (simp add: fl_def)
next
  case False
  let ?x = "of_int k * (2::rat) powi j"
  have x0: "?x \<noteq> 0" using False by simp
  let ?e = "ilog2 \<bar>?x\<bar>"
  have "2 powi ?e \<le> \<bar>?x\<bar>" using ilog2_bounds [of "\<bar>?x\<bar>"] x0 by simp
  also have "\<bar>?x\<bar> = of_int \<bar>k\<bar> * 2 powi j" by (simp add: abs_mult)
  also have "\<dots> < 2 ^ 53 * 2 powi j"
  proof -
    have "(of_int \<bar>k\<bar> :: rat) < of_int (2 ^ 53)" using assms by (simp only: of_int_less_iff)
    then show ?thesis by (simp add: mult_strict_right_mono)
  qed
  also have "\<dots> = 2 powi (53 + j)"
    by (simp add: power_int_add)
  finally have "?e < 53 + j" by (simp add: pow2_less_iff)
  then have "0 \<le> j - (?e - 52)" by simp
  then obtain n :: nat where n0: "j - (?e - 52) = int n"
    using nonneg_int_cases by blast
  then have n: "j = (?e - 52) + int n" by simp
  have "?x / 2 powi (?e - 52) = of_int k * (2 powi j / 2 powi (?e - 52))" by simp
  also have "2 powi j / (2::rat) powi (?e - 52) = 2 powi (j - (?e - 52))"
    by (simp add: power_int_diff)
  also have "j - (?e - 52) = int n" using n by simp
  finally have q: "?x / 2 powi (?e - 52) = of_int (k * 2 ^ n)" by simp
  have "fl ?x = of_int (k * 2 ^ n) * 2 powi (?e - 52)"
    using x0 unfolding fl_def Let_def q rne_of_int by simp
  also have "\<dots> = of_int k * (2 powi int n * 2 powi (?e - 52))" by simp
  also have "2 powi int n * (2::rat) powi (?e - 52) = 2 powi j"
    by (subst n) (simp add: power_int_add)
  finally show ?thesis .
qed

lemma fl_of_int: "\<bar>k\<bar> < 2 ^ 53 \<Longrightarrow> fl (of_int k) = of_int k"
  using fl_exact [of k 0] by simp

subsection \<open>Rounding error of a float operation\<close>

lemma rne_err: "\<bar>of_int (rne q) - q\<bar> \<le> 1 / 2"
proof -
  have "of_int \<lfloor>q\<rfloor> \<le> q" "q < of_int \<lfloor>q\<rfloor> + 1" by linarith+
  then show ?thesis
    by (auto simp: rne_def Let_def abs_le_iff)
qed

lemma fl_err: "\<bar>fl x - x\<bar> \<le> \<bar>x\<bar> / 2 ^ 53"
proof (cases "x = 0")
  case True
  then show ?thesis by (simp add: fl_def)
next
  case False
  let ?e = "ilog2 \<bar>x\<bar>"
  let ?u = "(2::rat) powi (?e - 52)"
  have u: "0 < ?u" by simp
  have lo: "2 powi ?e \<le> \<bar>x\<bar>" using ilog2_bounds [of "\<bar>x\<bar>"] False by simp
  have ue: "?u = 2 powi ?e / 2 ^ 52" by (simp add: power_int_diff)
  have "fl x - x = (of_int (rne (x / ?u)) - x / ?u) * ?u"
    using False u by (simp add: fl_def Let_def field_simps)
  then have "\<bar>fl x - x\<bar> = \<bar>of_int (rne (x / ?u)) - x / ?u\<bar> * ?u"
    using u by (simp add: abs_mult)
  also have "\<dots> \<le> (1 / 2) * ?u"
    using rne_err [of "x / ?u"] u by (intro mult_right_mono) simp_all
  also have "\<dots> = 2 powi ?e / 2 ^ 53" by (simp add: ue)
  also have "\<dots> \<le> \<bar>x\<bar> / 2 ^ 53" using lo by (simp add: divide_right_mono)
  finally show ?thesis .
qed

lemma fl_err_bound: "\<bar>x\<bar> \<le> B \<Longrightarrow> \<bar>fl x - x\<bar> \<le> B / 2 ^ 53"
  using fl_err [of x] by (meson divide_right_mono order_trans zero_le_numeral zero_le_power)

lemma abs_mult_bound:
  fixes u v :: rat
  shows "\<bar>u\<bar> \<le> U \<Longrightarrow> \<bar>v\<bar> \<le> V \<Longrightarrow> \<bar>u * v\<bar> \<le> U * V"
  by (simp add: abs_mult mult_mono)

lemma fl_lower: "0 \<le> z \<Longrightarrow> z - z / 2 ^ 53 \<le> fl z"
proof -
  assume z: "0 \<le> z"
  define d where "d = z / 2 ^ 53"
  have "\<bar>fl z - z\<bar> \<le> d" using fl_err [of z] z by (simp add: d_def)
  then have "z - d \<le> fl z" by linarith
  then show ?thesis by (simp add: d_def)
qed

lemma fl_ge1: "11 / 10 \<le> z \<Longrightarrow> 1 \<le> fl z"
proof -
  assume z: "11 / 10 \<le> z"
  define d where "d = z / 2 ^ 53"
  have d: "d * 2 ^ 53 = z" by (simp add: d_def)
  have "z - d \<le> fl z" using fl_lower [of z] z by (simp add: d_def)
  moreover have "d \<le> z / 11" using z by (simp add: d_def)
  ultimately show ?thesis using z by linarith
qed

lemma py_int_ge1: "1 \<le> z \<Longrightarrow> 0 < py_int z"
proof -
  assume z: "1 \<le> z"
  then have "1 \<le> \<lfloor>z\<rfloor>" by (simp add: le_floor_iff)
  with z show ?thesis by (simp add: py_int_def)
qed

subsection \<open>The gradient\<close>

lemma py_float_exact: "\<bar>k\<bar> < 2 ^ 53 \<Longrightarrow> py_float k = of_int k"
  by (simp add: py_float_def fl_of_int)

lemma fl_0 [simp]: "fl 0 = 0" by (simp add: fl_def)

lemma fl_1 [simp]: "fl 1 = 1" using fl_of_int [of 1] by simp

lemma lerp_top:
  assumes "\<bar>a\<bar> < 2 ^ 53"
  shows "lerp a b 0 height = a"
proof -
  have "fl (of_int a) = of_int a" using assms by (rule fl_of_int)
  then show ?thesis
    by (simp add: lerp_def truediv_def fsub_def fmul_def fadd_def py_float_def py_int_def)
qed

lemma Draw_line_ok:
  "no_faults E \<Longrightarrow> d < length (heap s) \<Longrightarrow>
   Draw_line E d p0 p1 fill s = (Inr (), s\<lparr>heap := (heap s)[d := line_v (heap s ! d) p0 p1 fill]\<rparr>)"
  by (simp add: Draw_line_def deref_def py_bind_def assign_def)

lemma line_v_fields [simp]:
  "mode (line_v im p q c) = mode im" "xsize (line_v im p q c) = xsize im"
  "ysize (line_v im p q c) = ysize im"
  by (simp_all add: line_v_def)

lemma gradient_rows_fields [simp]:
  "mode (gradient_rows im w h c1 c2 ys) = mode im"
  "xsize (gradient_rows im w h c1 c2 ys) = xsize im"
  "ysize (gradient_rows im w h c1 c2 ys) = ysize im"
  by (induction ys arbitrary: im; simp add: gradient_rows_def)+

lemma gradient_rows_pixels:
  "pixels (gradient_rows im w h c1 c2 ys) x y =
     (if 0 \<le> y \<and> nat y \<in> set ys \<and> 0 \<le> x \<and> x \<le> int w
      then (clip8 (lerp (fst c1) (fst c2) (nat y) h),
            clip8 (lerp (fst (snd c1)) (fst (snd c2)) (nat y) h),
            clip8 (lerp (snd (snd c1)) (snd (snd c2)) (nat y) h), 255)
      else pixels im x y)"
proof (induction ys arbitrary: im)
  case Nil
  then show ?case by (simp add: gradient_rows_def)
next
  case (Cons a ys)
  have "gradient_rows im w h c1 c2 (a # ys) =
        gradient_rows (line_v im (0, int a) (int w, int a)
              (lerp (fst c1) (fst c2) a h, lerp (fst (snd c1)) (fst (snd c2)) a h,
               lerp (snd (snd c1)) (snd (snd c2)) a h)) w h c1 c2 ys"
    by (simp add: gradient_rows_def)
  then show ?case
    by (auto simp: Cons.IH line_v_def)
qed

lemma gradient_loop:
  assumes "no_faults E"
  shows "d < length (heap s) \<Longrightarrow>
   for_each ys (\<lambda>y.
        let ratio = truediv (int y) (int height);
            r = py_int (fadd (fmul (py_float (fst color1)) (fsub (py_float 1) ratio))
                             (fmul (py_float (fst color2)) ratio));
            g = py_int (fadd (fmul (py_float (fst (snd color1))) (fsub (py_float 1) ratio))
                             (fmul (py_float (fst (snd color2))) ratio));
            b = py_int (fadd (fmul (py_float (snd (snd color1))) (fsub (py_float 1) ratio))
                             (fmul (py_float (snd (snd color2))) ratio))
        in Draw_line E d (0, int y) (int width, int y) (r, g, b)) s =
     (Inr (), s\<lparr>heap := (heap s)[d := gradient_rows (heap s ! d) width height color1 color2 ys]\<rparr>)"
proof (induction ys arbitrary: s)
  case Nil
  then show ?case by (simp add: py_return_def gradient_rows_def)
next
  case (Cons y ys)
  then show ?case
    by (simp add: py_bind_def Let_def Draw_line_ok [OF assms] gradient_rows_def lerp_def)
qed

lemma create_gradient_background_ok:
  assumes "no_faults E"
  shows "create_gradient_background E width height color1 color2 s =
     (Inr (length (heap s)),
      s\<lparr>heap := heap s @ [gradient_rows (new_v RGB (width, height) (0, 0, 0, 255))
                             width height color1 color2 [0..<height]]\<rparr>)"
  unfolding create_gradient_background_def Let_def
  by (simp add: py_bind_def Image_new_ok [OF assms] gradient_loop [OF assms, unfolded Let_def]
      py_return_def)

lemma lerp_demo:
  "lerp 100 150 (Suc 0) 2 = 125" "lerp 150 200 (Suc 0) 2 = 175" "lerp 255 255 (Suc 0) 2 = 255"
  by code_simp+

lemma lerp_value:
  assumes a: "0 \<le> a" "a \<le> 255" and b: "0 \<le> b" "b \<le> 255" and y: "y < h"
  obtains S X :: rat where
    "lerp a b y h = py_int S"
    "spec_channel a b y h = py_int X"
    "0 \<le> X" "X \<le> 255" "\<bar>S - X\<bar> \<le> 1 / 1000"
proof -
  define eps :: rat where "eps = 1 / 2 ^ 53"
  have eps: "0 < eps" "eps \<le> 1 / 1000000" by (simp_all add: eps_def)
  define rho :: rat where "rho = of_nat y / of_nat h"
  have h: "0 < (of_nat h :: rat)" using y by simp
  have rho: "0 \<le> rho" "rho \<le> 1" using y h by (simp_all add: rho_def)
  define r where "r = fl rho"
  have r_def': "truediv (int y) (int h) = r" by (simp add: truediv_def r_def rho_def)
  have e1: "\<bar>r - rho\<bar> \<le> eps"
    using fl_err_bound [of rho 1] rho unfolding r_def eps_def by simp
  define om where "om = fl (1 - r)"
  have om_def': "fsub (py_float 1) r = om" by (simp add: fsub_def py_float_def om_def)
  have "\<bar>1 - r\<bar> \<le> 3" using e1 rho eps by (simp add: abs_le_iff) 
  then have "\<bar>om - (1 - r)\<bar> \<le> 3 * eps"
    using fl_err_bound [of "1 - r" 3] unfolding om_def eps_def by simp
  then have e2: "\<bar>om - (1 - rho)\<bar> \<le> 4 * eps" using e1 by (simp add: abs_le_iff)
  have om: "\<bar>om\<bar> \<le> 2" using e2 rho eps by (simp add: abs_le_iff)
  have rb: "\<bar>r\<bar> \<le> 2" using e1 rho eps by (simp add: abs_le_iff)
  define A :: rat where "A = of_int a"
  define B :: rat where "B = of_int b"
  have A: "0 \<le> A" "A \<le> 255" "\<bar>A\<bar> \<le> 255" using a by (simp_all add: A_def)
  have B: "0 \<le> B" "B \<le> 255" "\<bar>B\<bar> \<le> 255" using b by (simp_all add: B_def)
  have fa: "py_float a = A" using a by (simp add: A_def py_float_exact)
  have fb: "py_float b = B" using b by (simp add: B_def py_float_exact)
  define p1 where "p1 = fl (A * om)"
  define p2 where "p2 = fl (B * r)"
  have "\<bar>A * om\<bar> \<le> 255 * 2" using A(3) om by (rule abs_mult_bound)
  then have "\<bar>p1 - A * om\<bar> \<le> 510 * eps"
    using fl_err_bound [of "A * om" 510] unfolding p1_def eps_def by simp
  moreover have "\<bar>A * (om - (1 - rho))\<bar> \<le> 255 * (4 * eps)" using A(3) e2 by (rule abs_mult_bound)
  moreover have "A * om - A * (1 - rho) = A * (om - (1 - rho))" by (simp add: algebra_simps)
  ultimately have e3: "\<bar>p1 - A * (1 - rho)\<bar> \<le> 1530 * eps" by (simp add: abs_le_iff)
  have "\<bar>B * r\<bar> \<le> 255 * 2" using B(3) rb by (rule abs_mult_bound)
  then have "\<bar>p2 - B * r\<bar> \<le> 510 * eps"
    using fl_err_bound [of "B * r" 510] unfolding p2_def eps_def by simp
  moreover have "\<bar>B * (r - rho)\<bar> \<le> 255 * eps" using B(3) e1 by (rule abs_mult_bound)
  moreover have "B * r - B * rho = B * (r - rho)" by (simp add: algebra_simps)
  ultimately have e4: "\<bar>p2 - B * rho\<bar> \<le> 765 * eps" by (simp add: abs_le_iff)
  define X where "X = A * (1 - rho) + B * rho"
  have "0 \<le> A * (1 - rho)" "0 \<le> B * rho" using A B rho by simp_all
  then have X0: "0 \<le> X" by (simp add: X_def)
  have "A * (1 - rho) \<le> 255 * (1 - rho)"
    using A(2) rho by (intro mult_right_mono) simp_all
  moreover have "B * rho \<le> 255 * rho"
    using B(2) rho by (intro mult_right_mono) simp_all
  ultimately have X1: "X \<le> 255" by (simp add: X_def)
  define S where "S = fl (p1 + p2)"
  have e5: "\<bar>(p1 + p2) - X\<bar> \<le> 2295 * eps" using e3 e4 by (simp add: X_def abs_le_iff)
  then have "\<bar>p1 + p2\<bar> \<le> 256" using X0 X1 eps by (simp add: abs_le_iff)
  then have "\<bar>S - (p1 + p2)\<bar> \<le> 256 * eps"
    using fl_err_bound [of "p1 + p2" 256] unfolding S_def eps_def by simp
  then have "\<bar>S - X\<bar> \<le> 2551 * eps" using e5 by (simp add: abs_le_iff)
  moreover have "2551 * eps \<le> 1 / 1000" by (simp add: eps_def)
  ultimately have SX: "\<bar>S - X\<bar> \<le> 1 / 1000" by linarith
  have l: "lerp a b y h = py_int S"
    by (simp add: lerp_def Let_def r_def' om_def' fa fb fmul_def fadd_def S_def p1_def p2_def)
  have s: "spec_channel a b y h = py_int X"
    by (simp add: spec_channel_def Let_def X_def A_def B_def rho_def)
  from l s X0 X1 SX show ?thesis by (rule that)
qed

lemma lerp_close:
  assumes "0 \<le> a" "a \<le> 255" "0 \<le> b" "b \<le> 255" "y < h"
  shows "\<bar>lerp a b y h - spec_channel a b y h\<bar> \<le> 1 \<and> 0 \<le> lerp a b y h \<and> lerp a b y h \<le> 255"
proof -
  from assms obtain S X :: rat where l: "lerp a b y h = py_int S"
    and s: "spec_channel a b y h = py_int X"
    and X: "0 \<le> X" "X \<le> 255" and SX: "\<bar>S - X\<bar> \<le> 1 / 1000"
    by (rule lerp_value)
  have d1: "S < X + 1" "X < S + 1" using SX by linarith+
  have fx: "of_int \<lfloor>X\<rfloor> \<le> X" "X < of_int \<lfloor>X\<rfloor> + 1" by linarith+
  have fx0: "0 \<le> \<lfloor>X\<rfloor>" "\<lfloor>X\<rfloor> \<le> 255" using X by (simp_all add: floor_le_iff le_floor_iff)
  show ?thesis
  proof (cases "0 \<le> S")
    case True
    have fs: "of_int \<lfloor>S\<rfloor> \<le> S" "S < of_int \<lfloor>S\<rfloor> + 1" by linarith+
    have "S < 256" using d1 X by linarith
    then have "\<lfloor>S\<rfloor> \<le> 255" by (simp add: floor_le_iff)
    moreover have "0 \<le> \<lfloor>S\<rfloor>" using True by simp
    moreover have "(of_int \<lfloor>S\<rfloor> :: rat) < of_int \<lfloor>X\<rfloor> + 2" using fs fx d1 by linarith
    then have "\<lfloor>S\<rfloor> < \<lfloor>X\<rfloor> + 2" by (simp only: of_int_less_iff [symmetric, where 'a = rat] of_int_add of_int_numeral)
    moreover have "(of_int \<lfloor>X\<rfloor> :: rat) < of_int \<lfloor>S\<rfloor> + 2" using fs fx d1 by linarith
    then have "\<lfloor>X\<rfloor> < \<lfloor>S\<rfloor> + 2" by (simp only: of_int_less_iff [symmetric, where 'a = rat] of_int_add of_int_numeral)
    ultimately show ?thesis using True X by (simp add: l s py_int_def)
  next
    case False
    then have S: "S < 0" "- 1 < S" using d1 X by linarith+
    then have c: "\<lceil>S\<rceil> = 0" by (simp add: ceiling_eq_iff)
    have "X < 1" using d1 S by linarith
    then have "\<lfloor>X\<rfloor> = 0" using X by (simp add: floor_eq_iff)
    then show ?thesis using False X c by (simp add: l s py_int_def)
  qed
qed

lemma lerp_gap: "lerp 255 255 3 7 = 254" "spec_channel 255 255 3 7 = 255"
  by code_simp+

lemma clip8_id: "0 \<le> v \<Longrightarrow> v \<le> 255 \<Longrightarrow> clip8 v = v"
  by (simp add: clip8_def)

text \<open>
  C3, as the spec words it, fails. For a white gradient of height 7 the row \<open>y = 3\<close> holds
  254 in the code: the ratio \<open>3 / 7\<close>, its complement and the two products are each
  rounded to a float, their sum is just below 255, and \<open>int\<close> truncates it. The exact
  value \<open>255 * (1 - 3/7) + 255 * (3/7)\<close> is 255.
\<close>

theorem create_gradient_background_exact_counterexample:
  "fst (pixels (heap (snd (create_gradient_background offline_env 1 7 (255, 255, 255)
                            (255, 255, 255) init)) ! 0) 0 3) = 254
   \<and> spec_channel 255 255 3 7 = 255"
proof -
  have "nat 3 \<in> set [0..<7]" by simp
  then show ?thesis
    by (simp add: create_gradient_background_ok [OF no_faults_offline] init_def
        gradient_rows_pixels lerp_gap clip8_def del: upt_Suc set_upt)
qed

text \<open>
  C3. For colours with channels in \<open>0..255\<close>, \<open>create_gradient_background\<close> returns a new
  RGB image of the given size in which every pixel of row \<open>y\<close> holds, in each channel,
  the float value of \<open>color1 * (1 - ratio) + color2 * ratio\<close> with
  \<open>ratio = y / height\<close>, truncated to an integer (\<open>lerp\<close>). This value differs from the
  exactly computed and truncated one (\<open>spec_channel\<close>) by at most 1; the top row equals
  \<open>color1\<close> exactly; and the image is the same from whatever state the call starts.
\<close>

theorem create_gradient_background_float_rows:
  assumes "no_faults E"
    and "0 \<le> fst color1 \<and> fst color1 \<le> 255 \<and> 0 \<le> fst (snd color1) \<and> fst (snd color1) \<le> 255
         \<and> 0 \<le> snd (snd color1) \<and> snd (snd color1) \<le> 255"
    and "0 \<le> fst color2 \<and> fst color2 \<le> 255 \<and> 0 \<le> fst (snd color2) \<and> fst (snd color2) \<le> 255
         \<and> 0 \<le> snd (snd color2) \<and> snd (snd color2) \<le> 255"
  shows "\<exists>a s'. create_gradient_background E width height color1 color2 s = (Inr a, s')
     \<and> a < length (heap s')
     \<and> mode (heap s' ! a) = RGB \<and> xsize (heap s' ! a) = width \<and> ysize (heap s' ! a) = height
     \<and> (\<forall>x y. x < width \<and> y < height \<longrightarrow>
           pixels (heap s' ! a) (int x) (int y) =
             (lerp (fst color1) (fst color2) y height,
              lerp (fst (snd color1)) (fst (snd color2)) y height,
              lerp (snd (snd color1)) (snd (snd color2)) y height, 255))
     \<and> (\<forall>y. y < height \<longrightarrow>
           \<bar>lerp (fst color1) (fst color2) y height
              - spec_channel (fst color1) (fst color2) y height\<bar> \<le> 1
         \<and> \<bar>lerp (fst (snd color1)) (fst (snd color2)) y height
              - spec_channel (fst (snd color1)) (fst (snd color2)) y height\<bar> \<le> 1
         \<and> \<bar>lerp (snd (snd color1)) (snd (snd color2)) y height
              - spec_channel (snd (snd color1)) (snd (snd color2)) y height\<bar> \<le> 1)
     \<and> (\<forall>x. x < width \<and> 0 < height \<longrightarrow>
           pixels (heap s' ! a) (int x) 0 =
             (fst color1, fst (snd color1), snd (snd color1), 255))
     \<and> (\<forall>s2. \<exists>a2 s2'. create_gradient_background E width height color1 color2 s2 = (Inr a2, s2')
             \<and> heap s2' ! a2 = heap s' ! a)"
proof -
  have top: "lerp a b 0 height = a" if "0 \<le> a" "a \<le> 255" for a b
    using that by (simp add: lerp_top)
  have close: "\<bar>lerp a b y height - spec_channel a b y height\<bar> \<le> 1"
       "clip8 (lerp a b y height) = lerp a b y height"
    if "0 \<le> a" "a \<le> 255" "0 \<le> b" "b \<le> 255" "y < height" for a b y
    using lerp_close [OF that] by (simp_all add: clip8_id)
  show ?thesis
    using assms(2,3)
    by (auto simp: create_gradient_background_ok [OF assms(1)] gradient_rows_pixels top close clip8_id)
qed

theorem create_gradient_background_float_rows_witness:
  "\<exists>a s'. create_gradient_background offline_env 2 2 (100, 150, 255) (150, 200, 255) init
            = (Inr a, s')
     \<and> xsize (heap s' ! a) = 2 \<and> ysize (heap s' ! a) = 2
     \<and> pixels (heap s' ! a) 1 0 = (100, 150, 255, 255)
     \<and> pixels (heap s' ! a) 1 1 = (125, 175, 255, 255)"
proof -
  have c1: "0 \<le> fst (100::int, 150::int, 255::int) \<and> fst (100::int, 150::int, 255::int) \<le> 255
      \<and> 0 \<le> fst (snd (100::int, 150::int, 255::int)) \<and> fst (snd (100::int, 150::int, 255::int)) \<le> 255
      \<and> 0 \<le> snd (snd (100::int, 150::int, 255::int)) \<and> snd (snd (100::int, 150::int, 255::int)) \<le> 255"
    by simp
  have c2: "0 \<le> fst (150::int, 200::int, 255::int) \<and> fst (150::int, 200::int, 255::int) \<le> 255
      \<and> 0 \<le> fst (snd (150::int, 200::int, 255::int)) \<and> fst (snd (150::int, 200::int, 255::int)) \<le> 255
      \<and> 0 \<le> snd (snd (150::int, 200::int, 255::int)) \<and> snd (snd (150::int, 200::int, 255::int)) \<le> 255"
    by simp
  from create_gradient_background_float_rows [OF no_faults_offline c1 c2, of 2 2 init]
  obtain a s' where r: "create_gradient_background offline_env 2 2 (100, 150, 255) (150, 200, 255)
       init = (Inr a, s')"
    and sz: "xsize (heap s' ! a) = 2" "ysize (heap s' ! a) = 2"
    and px: "\<forall>x y. x < 2 \<and> y < 2 \<longrightarrow>
           pixels (heap s' ! a) (int x) (int y) =
             (lerp 100 150 y 2, lerp 150 200 y 2, lerp 255 255 y 2, 255)"
    and top: "\<forall>x. x < (2::nat) \<and> 0 < (2::nat) \<longrightarrow>
           pixels (heap s' ! a) (int x) 0 = (100, 150, 255, 255)"
    by (simp only: fst_conv snd_conv) blast
  from px [rule_format, of 1 1] have p11: "pixels (heap s' ! a) 1 1 = (125, 175, 255, 255)"
    by (simp add: lerp_demo)
  from top [rule_format, of 1] have p10: "pixels (heap s' ! a) 1 0 = (100, 150, 255, 255)"
    by simp
  show ?thesis using r sz p11 p10 by blast
qed

subsection \<open>Outlined text\<close>

lemma outline_offsets_set:
  "set outline_offsets = {d. - 2 \<le> fst d \<and> fst d \<le> 2 \<and> - 2 \<le> snd d \<and> snd d \<le> 2 \<and> d \<noteq> (0, 0)}"
proof -
  have r: "{- 2..2::int} = {- 2, - 1, 0, 1, 2}" by auto
  have "{d :: int \<times> int. - 2 \<le> fst d \<and> fst d \<le> 2 \<and> - 2 \<le> snd d \<and> snd d \<le> 2 \<and> d \<noteq> (0, 0)}
        = ({- 2..2} \<times> {- 2..2}) - {(0, 0)}"
    by auto
  also have "\<dots> = set outline_offsets"
    unfolding r outline_offsets_def by auto
  finally show ?thesis by simp
qed

text \<open>
  C8. Every call of \<open>draw_text_with_outline\<close> that runs to its end draws the text
  once in the outline colour at \<open>(x + dx, y + dy)\<close> for each of the 24 offsets with
  \<open>dx\<close>, \<open>dy\<close> in \<open>-2..2\<close> other than \<open>(0, 0)\<close>, and then once at \<open>(x, y)\<close> in the
  fill colour, as the last call; \<open>x\<close> is the centred coordinate when \<open>center\<close> is set.
  The image drawn on is the result of exactly these calls in this order.
\<close>

theorem draw_text_with_outline_calls:
  assumes "no_faults E" and "metrics_ok E" and "draw < length (heap s)"
  shows "\<exists>s'. draw_text_with_outline E draw t x y f fill_color outline_color center s = (Inr (), s')
     \<and> (let x' = (if center then x - text_width E f t div 2 else x);
             calls = map (\<lambda>d. \<lparr>target = draw, xy = (x' + fst d, y + snd d), label = t,
                                face = f, ink = outline_color\<rparr>) outline_offsets
                     @ [\<lparr>target = draw, xy = (x', y), label = t, face = f, ink = fill_color\<rparr>]
         in drawn s' = drawn s @ calls
            \<and> heap s' = (heap s)[draw := render E (heap s ! draw) calls])
     \<and> length outline_offsets = 24 \<and> distinct outline_offsets
     \<and> set outline_offsets =
         {d. - 2 \<le> fst d \<and> fst d \<le> 2 \<and> - 2 \<le> snd d \<and> snd d \<le> 2 \<and> d \<noteq> (0, 0)}"
proof -
  have "length outline_offsets = 24" "distinct outline_offsets"
    by (simp_all add: outline_offsets_def)
  then show ?thesis
    using draw_text_with_outline_ok [OF assms, of t x y f fill_color outline_color center]
    by (simp add: outline_offsets_set after_calls_def outlined_calls_def Let_def)
qed

theorem draw_text_with_outline_calls_witness:
  "\<exists>s'. draw_text_with_outline offline_env 0 ''Hi'' 30 15 DefaultFont ''white'' ''black'' False
          demo_state = (Inr (), s')
     \<and> length (drawn s') = 25
     \<and> list_all (\<lambda>c. ink c = ''black'') (butlast (drawn s')) \<and> ink (last (drawn s')) = ''white''
     \<and> xy (drawn s' ! 0) = (28, 13) \<and> xy (drawn s' ! 23) = (32, 17) \<and> xy (drawn s' ! 24) = (30, 15)"
proof -
  have d: "0 < length (heap demo_state)" by (simp add: demo_state_def)
  from draw_text_with_outline_calls [OF no_faults_offline metrics_ok_offline d,
      of "''Hi''" 30 15 DefaultFont "''white''" "''black''" False]
  obtain s' where a: "draw_text_with_outline offline_env 0 ''Hi'' 30 15 DefaultFont ''white''
          ''black'' False demo_state = (Inr (), s')"
    and b: "drawn s' = drawn demo_state @
              map (\<lambda>d. \<lparr>target = 0, xy = (30 + fst d, 15 + snd d), label = ''Hi'',
                         face = DefaultFont, ink = ''black''\<rparr>) outline_offsets
              @ [\<lparr>target = 0, xy = (30, 15), label = ''Hi'', face = DefaultFont,
                   ink = ''white''\<rparr>]"
    unfolding Let_def if_False by blast
  show ?thesis
    using a b by (intro exI [of _ s']) (simp add: outline_offsets_def demo_state_def)
qed

lemma last_outlined_calls [simp]:
  "last (outlined_calls d t x y f fc oc) = \<lparr>target = d, xy = (x, y), label = t, face = f, ink = fc\<rparr>"
  by (simp add: outlined_calls_def)

lemma outlined_calls_nonempty [simp]: "outlined_calls d t x y f fc oc \<noteq> []"
  by (simp add: outlined_calls_def)









subsection \<open>Lines of text\<close>

lemma strip_ends:
  assumes "strip s \<noteq> []"
  shows "\<not> isspace (hd (strip s)) \<and> \<not> isspace (last (strip s))"
proof -
  let ?t = "dropWhile isspace s"
  let ?u = "dropWhile isspace (rev ?t)"
  have u: "?u \<noteq> []" using assms by (simp add: strip_def)
  have t: "?t \<noteq> []"
  proof
    assume e: "?t = []"
    have "?u = []" unfolding e by simp
    with u show False by contradiction
  qed
  have "last (strip s) = hd ?u" using u by (simp add: strip_def last_rev)
  moreover have "\<not> isspace (hd ?u)" using u by (rule hd_dropWhile)
  moreover have "hd (strip s) = last ?u" using u by (simp add: strip_def hd_rev)
  moreover have "last ?u = last (rev ?t)"
  proof -
    have "rev ?t = takeWhile isspace (rev ?t) @ ?u" by simp
    then show ?thesis using u by (metis last_appendR)
  qed
  moreover have "last (rev ?t) = hd ?t" using t by (simp add: last_rev)
  moreover have "\<not> isspace (hd ?t)" using t by (rule hd_dropWhile)
  ultimately show ?thesis by simp
qed

lemma set_strip: "set (strip s) \<subseteq> set s"
  unfolding strip_def by (auto dest!: set_dropWhileD)

lemma split_on_nonempty: "split_on c s \<noteq> []"
  by (induction s) (auto split: list.splits)

lemma split_on_no_sep: "l \<in> set (split_on c s) \<Longrightarrow> c \<notin> set l"
proof (induction s arbitrary: l)
  case Nil
  then show ?case by simp
next
  case (Cons a s)
  show ?case
  proof (cases "a = c")
    case True
    with Cons show ?thesis by auto
  next
    case False
    obtain h t where ht: "split_on c s = h # t"
      using split_on_nonempty [of c s] by (cases "split_on c s") auto
    with Cons.prems False have "l = a # h \<or> l \<in> set t" by auto
    then show ?thesis
      using Cons.IH [of h] Cons.IH [of l] ht False by auto
  qed
qed

lemma details_lines_of_props:
  assumes "l \<in> set (details_lines_of details)"
  shows "l \<noteq> [] \<and> \<not> isspace (hd l) \<and> \<not> isspace (last l) \<and> CHR 0x0A \<notin> set l"
proof -
  from assms obtain p where p: "p \<in> set (split_on (CHR 0x0A) details)" "strip p \<noteq> []" "l = strip p"
    by (auto simp: details_lines_of_def split: if_splits)
  have "CHR 0x0A \<notin> set p" using p(1) by (rule split_on_no_sep)
  then have "CHR 0x0A \<notin> set l" using set_strip [of p] p(3) by auto
  then show ?thesis using strip_ends [OF p(2)] p(2,3) by simp
qed

lemma line_step_exact:
  assumes "0 \<le> d" "d < 2 ^ 51"
  shows "line_step d = 3 * d div 2"
proof -
  have d: "py_float d = of_int d" using assms by (intro py_float_exact) simp
  have l: "py_lit (15 / 10) = 3 / 2"
    using fl_exact [of 3 "- 1"] by (simp add: py_lit_def)
  have "\<bar>3 * d\<bar> < 2 ^ 53" using assms by simp
  from fl_exact [OF this, of "- 1"]
  have "fmul (of_int d) (3 / 2) = of_int (3 * d) / of_int 2"
    by (simp add: fmul_def mult.commute)
  moreover have "0 \<le> (of_int (3 * d) / of_int 2 :: rat)" using assms by simp
  ultimately show ?thesis
    unfolding line_step_def d l py_int_def by (simp only: if_True floor_divide_of_int_eq)
qed

lemma filter_outlined_calls:
  "oc \<noteq> k \<Longrightarrow> filter (\<lambda>c. ink c = k) (outlined_calls d t x y f fc oc) =
     (if fc = k then [\<lparr>target = d, xy = (x, y), label = t, face = f, ink = fc\<rparr>] else [])"
  by (simp add: outlined_calls_def filter_map o_def)

lemma details_calls_labels:
  "map label (filter (\<lambda>c. ink c = ''lightgray'') (details_calls E d ls x f step y)) = ls"
  by (induction ls arbitrary: y) (simp_all add: filter_outlined_calls)

lemma details_calls_ys:
  "map (\<lambda>c. snd (xy c)) (filter (\<lambda>c. ink c = ''lightgray'') (details_calls E d ls x f step y)) =
     map (\<lambda>i. y + int i * step) [0..<length ls]"
proof (induction ls arbitrary: y)
  case Nil
  then show ?case by simp
next
  case (Cons l ls)
  have "[0..<length (l # ls)] = 0 # map Suc [0..<length ls]"
    by (simp add: upt_conv_Cons map_Suc_upt del: upt_Suc)
  then show ?case
    by (simp add: filter_outlined_calls Cons.IH o_def algebra_simps del: upt_Suc)
qed

subsection \<open>The layout\<close>

lemma demo_lines: "details_lines_of ''A\<newline>\<newline>  \<newline>B'' = [''A'', ''B'']"
  by code_simp

lemma demo_logo_ok:
  "\<forall>l. Some (Suc 0) = Some l \<longrightarrow> l < length (heap demo_state) \<and> mode (heap demo_state ! l) \<noteq> RGB"
  by (simp add: demo_state_def)

lemma demo_no_logo_ok:
  "\<forall>l. None = Some l \<longrightarrow> l < length (heap demo_state) \<and> mode (heap demo_state ! l) \<noteq> RGB"
  by simp

lemma demo_img_ok: "0 < length (heap demo_state)"
  by (simp add: demo_state_def)

lemma apply_text_layout_result:
  assumes "benign E" and "img < length (heap s)"
    and "\<forall>l. logo = Some l \<longrightarrow> l < length (heap s) \<and> mode (heap s ! l) \<noteq> RGB"
  obtains r s' where
    "apply_text_layout E img subtitle details logo s = (Inr r, s')"
    "r < length (heap s')"
    "heap s' ! r =
       convert_v E RGB
         (alpha_composite_v E
            (with_logo E (darkened E (heap s ! img)) (map_option (\<lambda>l. heap s ! l) logo))
            (text_layer E (length (heap s) + 2) (heap s ! img) subtitle details))"
    "drawn s' = drawn s @
       layout_calls E (length (heap s) + 2) (int (xsize (heap s ! img)))
         (int (ysize (heap s ! img))) subtitle details"
proof -
  let ?bg = "heap s ! img"
  let ?layer = "text_layer E (length (heap s) + 2) ?bg subtitle details"
  let ?base = "with_logo E (darkened E ?bg) (map_option (\<lambda>l. heap s ! l) logo)"
  let ?flat = "alpha_composite_v E ?base ?layer"
  let ?s' = "s\<lparr>heap := heap s @ [?bg, convert_v E RGBA ?bg, ?layer,
                               new_v RGBA (xsize ?bg, ysize ?bg) (0, 0, 0, 80),
                               ?base, ?flat, convert_v E RGB ?flat],
             drawn := drawn s @
               layout_calls E (length (heap s) + 2) (int (xsize ?bg)) (int (ysize ?bg))
                 subtitle details\<rparr>"
  have "apply_text_layout E img subtitle details logo s = (Inr (length (heap s) + 6), ?s')"
    by (simp only: apply_text_layout_ok [OF assms] Let_def)
  moreover have "length (heap s) + 6 < length (heap ?s')" by simp
  moreover have "heap ?s' ! (length (heap s) + 6) = convert_v E RGB ?flat"
    by (simp add: nth_append)
  moreover have "drawn ?s' = drawn s @
       layout_calls E (length (heap s) + 2) (int (xsize ?bg)) (int (ysize ?bg)) subtitle details"
    by simp
  ultimately show ?thesis by (rule that)
qed

lemma layout_calls_labels:
  "map label (filter (\<lambda>c. ink c = ''lightgray'') (layout_calls E d w h subtitle details)) =
     details_lines_of details"
  by (simp add: layout_calls_def Let_def filter_outlined_calls details_calls_labels)

lemma layout_calls_ys:
  "map (\<lambda>c. snd (xy c)) (filter (\<lambda>c. ink c = ''lightgray'') (layout_calls E d w h subtitle details)) =
     map (\<lambda>i. (if subtitle \<noteq> []
                then h div 3 + py_int (fmul (py_float (min w h div 15)) (py_lit (12 / 10)))
                else h div 3)
              + int i * line_step (py_int (fmul (py_float (min w h div 15)) (py_lit (5 / 10)))))
       [0..<length (details_lines_of details)]"
  by (simp add: layout_calls_def Let_def filter_outlined_calls details_calls_ys del: upt_Suc)

lemma render_layout:
  "render E (new_v RGBA (xsize bg, ysize bg) (0, 0, 0, 0))
     (layout_calls E d (int (xsize bg)) (int (ysize bg)) subtitle details) =
   text_layer E d bg subtitle details"
  by (simp add: text_layer_def)

text \<open>
  C2. \<open>apply_text_layout\<close> composes its layers in a fixed order. The RGBA copy of the
  background is darkened by compositing a uniform black layer of alpha 80 over it; a logo,
  when there is one, is pasted onto the darkened image with itself as mask at
  \<open>(width - logo width - 40, 40)\<close>; the text overlay, which is the transparent layer with
  all the text calls of this run drawn on it, is composited over the result, and the
  whole is converted to RGB. So the logo is above the darkening and below the text.
\<close>

theorem apply_text_layout_layer_order:
  assumes "benign E" and "img < length (heap s)"
    and "\<forall>l. logo = Some l \<longrightarrow> l < length (heap s) \<and> mode (heap s ! l) \<noteq> RGB"
  shows "\<exists>r s'. apply_text_layout E img subtitle details logo s = (Inr r, s')
     \<and> r < length (heap s')
     \<and> (let bg = heap s ! img;
             dark = alpha_composite_v E (convert_v E RGBA bg)
                      (new_v RGBA (xsize bg, ysize bg) (0, 0, 0, 80));
             base = (case logo of
                       None \<Rightarrow> dark
                     | Some l \<Rightarrow> paste_v E dark (heap s ! l)
                         (int (xsize bg) - int (xsize (heap s ! l)) - 40, 40) (heap s ! l));
             overlay = render E (new_v RGBA (xsize bg, ysize bg) (0, 0, 0, 0))
                         (drop (length (drawn s)) (drawn s'))
         in heap s' ! r = convert_v E RGB (alpha_composite_v E base overlay))"
proof -
  from assms obtain r s' where r:
    "apply_text_layout E img subtitle details logo s = (Inr r, s')"
    "r < length (heap s')"
    "heap s' ! r =
       convert_v E RGB
         (alpha_composite_v E
            (with_logo E (darkened E (heap s ! img)) (map_option (\<lambda>l. heap s ! l) logo))
            (text_layer E (length (heap s) + 2) (heap s ! img) subtitle details))"
    "drawn s' = drawn s @
       layout_calls E (length (heap s) + 2) (int (xsize (heap s ! img)))
         (int (ysize (heap s ! img))) subtitle details"
    by (rule apply_text_layout_result)
  have "with_logo E (darkened E (heap s ! img)) (map_option (\<lambda>l. heap s ! l) logo) =
        (case logo of
           None \<Rightarrow> alpha_composite_v E (convert_v E RGBA (heap s ! img))
                      (new_v RGBA (xsize (heap s ! img), ysize (heap s ! img)) (0, 0, 0, 80))
         | Some l \<Rightarrow> paste_v E (alpha_composite_v E (convert_v E RGBA (heap s ! img))
                      (new_v RGBA (xsize (heap s ! img), ysize (heap s ! img)) (0, 0, 0, 80)))
             (heap s ! l)
             (int (xsize (heap s ! img)) - int (xsize (heap s ! l)) - 40, 40) (heap s ! l))"
    by (simp add: with_logo_def darkened_def split: option.splits)
  then show ?thesis
    using r by (intro exI [of _ r] exI [of _ s']) (simp add: Let_def render_layout)
qed

theorem apply_text_layout_layer_order_witness:
  "\<exists>r s'. apply_text_layout offline_env 0 ''Hi'' ''A'' (Some (Suc 0)) demo_state = (Inr r, s')
     \<and> heap s' ! r =
         convert_v offline_env RGB
           (alpha_composite_v offline_env
              (paste_v offline_env
                 (alpha_composite_v offline_env
                    (convert_v offline_env RGBA (new_v RGB (600, 450) (10, 20, 30, 255)))
                    (new_v RGBA (600, 450) (0, 0, 0, 80)))
                 (new_v RGBA (20, 10) (200, 0, 0, 128)) (540, 40)
                 (new_v RGBA (20, 10) (200, 0, 0, 128)))
              (render offline_env (new_v RGBA (600, 450) (0, 0, 0, 0)) (drawn s')))"
proof -
  from apply_text_layout_layer_order [OF benign_offline demo_img_ok demo_logo_ok,
      of "''Hi''" "''A''"]
  obtain r s' where
    "apply_text_layout offline_env 0 ''Hi'' ''A'' (Some (Suc 0)) demo_state = (Inr r, s')"
    "let bg = heap demo_state ! 0;
         dark = alpha_composite_v offline_env (convert_v offline_env RGBA bg)
                  (new_v RGBA (xsize bg, ysize bg) (0, 0, 0, 80));
         base = (case Some (Suc 0) of
                   None \<Rightarrow> dark
                 | Some l \<Rightarrow> paste_v offline_env dark (heap demo_state ! l)
                     (int (xsize bg) - int (xsize (heap demo_state ! l)) - 40, 40)
                     (heap demo_state ! l));
         overlay = render offline_env (new_v RGBA (xsize bg, ysize bg) (0, 0, 0, 0))
                     (drop (length (drawn demo_state)) (drawn s'))
     in heap s' ! r = convert_v offline_env RGB (alpha_composite_v offline_env base overlay)"
    by blast
  then show ?thesis
    by (intro exI [of _ r] exI [of _ s']) (simp add: Let_def demo_state_def)
qed

text \<open>
  C4. The detail lines that \<open>apply_text_layout\<close> renders are the pieces of the details
  string between newlines, stripped of surrounding whitespace, without the pieces that are
  empty after stripping, in their order: each is non-empty, starts and ends with a
  non-space character and contains no newline. The \<open>i\<close>-th of them is drawn at the
  height \<open>y0 + i * step\<close>, where \<open>y0\<close> is the cursor after the subtitle and \<open>step\<close> is
  \<open>int(details_size * 1.5)\<close>, that is \<open>3 * details_size div 2\<close>: blank lines take no
  space. The fill calls (light gray) identify the rendered lines in the call log.
\<close>

theorem apply_text_layout_detail_lines:
  assumes "benign E" and "img < length (heap s)"
    and "\<forall>l. logo = Some l \<longrightarrow> l < length (heap s) \<and> mode (heap s ! l) \<noteq> RGB"
  shows "\<exists>r s'. apply_text_layout E img subtitle details logo s = (Inr r, s')
     \<and> (let lines = (if details \<noteq> []
                      then map strip (filter (\<lambda>line. strip line \<noteq> [])
                                             (split_on (CHR 0x0A) details))
                      else []);
             width = int (xsize (heap s ! img)); height = int (ysize (heap s ! img));
             base_size = min width height div 15;
             details_size = py_int (fmul (py_float base_size) (py_lit (5 / 10)));
             y0 = (if subtitle \<noteq> []
                   then height div 3 + py_int (fmul (py_float base_size) (py_lit (12 / 10)))
                   else height div 3);
             fills = filter (\<lambda>c. ink c = ''lightgray'') (drop (length (drawn s)) (drawn s'))
         in map label fills = lines
            \<and> map (\<lambda>c. snd (xy c)) fills =
                map (\<lambda>i. y0 + int i * line_step details_size) [0..<length lines]
            \<and> (\<forall>l \<in> set lines. l \<noteq> [] \<and> \<not> isspace (hd l) \<and> \<not> isspace (last l)
                   \<and> CHR 0x0A \<notin> set l)
            \<and> (0 \<le> details_size \<and> details_size < 2 ^ 51 \<longrightarrow>
                 line_step details_size = 3 * details_size div 2))"
proof -
  from assms obtain r s' where r:
    "apply_text_layout E img subtitle details logo s = (Inr r, s')"
    and d: "drawn s' = drawn s @
       layout_calls E (length (heap s) + 2) (int (xsize (heap s ! img)))
         (int (ysize (heap s ! img))) subtitle details"
    by (rule apply_text_layout_result)
  have lines: "(if details \<noteq> []
                then map strip (filter (\<lambda>line. strip line \<noteq> []) (split_on (CHR 0x0A) details))
                else []) = details_lines_of details"
    by (simp only: details_lines_of_def)
  have p: "\<forall>l \<in> set (details_lines_of details).
             l \<noteq> [] \<and> \<not> isspace (hd l) \<and> \<not> isspace (last l) \<and> CHR 0x0A \<notin> set l"
    using details_lines_of_props by blast
  have dr: "drop (length (drawn s)) (drawn s') =
       layout_calls E (length (heap s) + 2) (int (xsize (heap s ! img)))
         (int (ysize (heap s ! img))) subtitle details"
    by (simp add: d)
  show ?thesis
    apply (rule exI [of _ r], rule exI [of _ s'])
    apply (simp only: lines Let_def dr layout_calls_labels layout_calls_ys)
    apply (insert r p)
    apply (simp add: line_step_exact del: upt_Suc)
    done
qed

lemma demo_geometry:
  "py_int (fmul (py_float 30) (py_lit (1 / 2))) = 15"
  "line_step 15 = 22"
  by code_simp+

theorem apply_text_layout_detail_lines_witness:
  "\<exists>r s'. apply_text_layout offline_env 0 [] ''A\<newline>\<newline>  \<newline>B'' None demo_state = (Inr r, s')
     \<and> map label (filter (\<lambda>c. ink c = ''lightgray'') (drawn s')) = [''A'', ''B'']
     \<and> map (\<lambda>c. snd (xy c)) (filter (\<lambda>c. ink c = ''lightgray'') (drawn s')) = [150, 172]"
proof -
  have sz: "xsize (heap demo_state ! 0) = 600" "ysize (heap demo_state ! 0) = 450"
    "drawn demo_state = []"
    by (simp_all add: demo_state_def)
  have lines: "(if ''A\<newline>\<newline>  \<newline>B'' \<noteq> []
                then map strip (filter (\<lambda>line. strip line \<noteq> [])
                       (split_on (CHR 0x0A) ''A\<newline>\<newline>  \<newline>B''))
                else []) = [''A'', ''B'']"
    using demo_lines by (simp only: details_lines_of_def)
  note t = apply_text_layout_detail_lines [OF benign_offline demo_img_ok demo_no_logo_ok,
      of "[]" "''A\<newline>\<newline>  \<newline>B''", unfolded Let_def lines sz]
  from t obtain r s' where
    a: "apply_text_layout offline_env 0 [] ''A\<newline>\<newline>  \<newline>B'' None demo_state = (Inr r, s')"
    and b: "map label (filter (\<lambda>c. ink c = ''lightgray'') (drop (length ([]::text_call list)) (drawn s')))
              = [''A'', ''B'']"
    and c: "map (\<lambda>c. snd (xy c))
              (filter (\<lambda>c. ink c = ''lightgray'') (drop (length ([]::text_call list)) (drawn s'))) =
            map (\<lambda>i. (if ([]::string) \<noteq> []
                 then int 450 div 3 + py_int (fmul (py_float (min (int 600) (int 450) div 15)) (py_lit (12 / 10)))
                 else int 450 div 3) +
                int i * line_step (py_int (fmul (py_float (min (int 600) (int 450) div 15)) (py_lit (5 / 10)))))
             [0..<length [''A'', ''B'']]"
    by (elim exE conjE)
  from c have c': "map (\<lambda>c. snd (xy c)) (filter (\<lambda>c. ink c = ''lightgray'') (drawn s')) = [150, 172]"
    by (simp add: demo_geometry)
  from a b c' show ?thesis
    by (intro exI [of _ r] exI [of _ s']) simp
qed

subsection \<open>Size and mode of the result\<close>

lemma font_sizes_pos:
  assumes "2 \<le> b"
  shows "0 < py_int (fmul (py_float b) (py_lit (8 / 10)))"
    and "0 < py_int (fmul (py_float b) (py_lit (5 / 10)))"
proof -
  define P where "P = py_float b"
  have b: "(2::rat) \<le> of_int b" using assms by simp
  then have "of_int b - of_int b / 2 ^ 53 \<le> P"
    unfolding P_def py_float_def by (intro fl_lower) simp
  moreover have "(2::rat) - 2 / 2 ^ 53 \<le> of_int b - of_int b / 2 ^ 53" using b by simp
  ultimately have P: "199 / 100 \<le> P" by simp
  define L where "L = py_lit (8 / 10)"
  have "(8 / 10 :: rat) - (8 / 10) / 2 ^ 53 \<le> L"
    unfolding L_def py_lit_def by (intro fl_lower) simp
  then have L: "79 / 100 \<le> L" by simp
  have "(199 / 100) * (79 / 100) \<le> P * L"
    using P L by (intro mult_mono) simp_all
  then have PL: "11 / 10 \<le> P * L" by simp
  then have "1 \<le> fmul P L" unfolding fmul_def by (rule fl_ge1)
  then show "0 < py_int (fmul (py_float b) (py_lit (8 / 10)))"
    unfolding P_def L_def by (rule py_int_ge1)
  have half: "py_lit (5 / 10) = 1 / 2"
    using fl_exact [of 1 "- 1"] by (simp add: py_lit_def)
  show "0 < py_int (fmul (py_float b) (py_lit (5 / 10)))"
  proof (cases "b = 2")
    case True
    have "py_int (fmul (py_float 2) (py_lit (5 / 10))) = 1" by code_simp
    then show ?thesis unfolding True by simp
  next
    case False
    with assms have "(3::rat) \<le> of_int b" by simp
    then have "of_int b - of_int b / 2 ^ 53 \<le> P"
      unfolding P_def py_float_def by (intro fl_lower) simp
    moreover have "(3::rat) - 3 / 2 ^ 53 \<le> of_int b - of_int b / 2 ^ 53"
      using \<open>(3::rat) \<le> of_int b\<close> by simp
    ultimately have P3: "29 / 10 \<le> P" by simp
    then have "11 / 10 \<le> P * (1 / 2)" by simp
    then have "1 \<le> fmul P (1 / 2)" unfolding fmul_def by (rule fl_ge1)
    then show ?thesis unfolding P_def half by (rule py_int_ge1)
  qed
qed

lemma fonts_ok_pos_loads: "fonts_ok_pos E \<Longrightarrow> 0 < sz \<Longrightarrow> font_loads E sz"
  unfolding fonts_ok_pos_def font_loads_def by blast

lemma no_faults_strict: "no_faults strict_font_env"
  by (simp add: no_faults_def strict_font_env_def offline_env_def)

lemma metrics_ok_strict: "metrics_ok strict_font_env"
  by (simp add: metrics_ok_def strict_font_env_def offline_env_def)

lemma fonts_ok_pos_strict: "fonts_ok_pos strict_font_env"
  by (simp add: fonts_ok_pos_def strict_font_env_def)

lemma small_size: "py_int (fmul (py_float 1) (py_lit (4 / 5))) = 0"
  by code_simp

lemma apply_text_layout_font_error:
  assumes nf: "no_faults E" and "img < length (heap s)"
    and "truetype E ''DejaVuSans.ttf'' (py_int (fmul (py_float
           (min (int (xsize (heap s ! img))) (int (ysize (heap s ! img))) div 15))
           (py_lit (8 / 10)))) = Inl e"
    and "e \<noteq> OSError"
  shows "fst (apply_text_layout E img subtitle details logo s) = Inl e"
  using assms(2-)
  by (simp add: apply_text_layout_def py_bind_def Image_copy_ok [OF nf] Image_convert_ok [OF nf]
      Image_new_ok [OF nf] Image_alpha_composite_ok [OF nf] deref_ok nth_append Let_def
      get_font_def py_try_def py_lift_def py_raise_def)

text \<open>
  C10, as the spec words it, fails. On a background of 20 by 20 pixels \<open>base_size\<close> is 1
  and \<open>subtitle_size = int(0.8)\<close> is 0; \<open>ImageFont.truetype\<close> refuses the size 0 with
  a \<open>ValueError\<close>, which \<open>get_font\<close> does not catch, and no image is returned.
\<close>

theorem apply_text_layout_small_counterexample:
  "fst (apply_text_layout strict_font_env 0 ''Hi'' ''A'' None small_state) = Inl ValueError"
proof -
  have i: "0 < length (heap small_state)" by (simp add: small_state_def)
  have t: "truetype strict_font_env ''DejaVuSans.ttf'' (py_int (fmul (py_float
           (min (int (xsize (heap small_state ! 0))) (int (ysize (heap small_state ! 0))) div 15))
           (py_lit (8 / 10)))) = Inl ValueError"
    by (simp add: small_state_def small_size strict_font_env_def)
  show ?thesis
    by (rule apply_text_layout_font_error [OF no_faults_strict i t]) simp
qed

text \<open>
  C10. For every background whose width and height are at least 30 pixels, so that both
  font sizes are positive, and every subtitle, details string and optional logo that has
  an alpha band, as \<open>process_logo\<close> returns it, \<open>apply_text_layout\<close> returns an image
  with the width and height of the background and mode RGB.
\<close>

theorem apply_text_layout_size_mode_30:
  assumes "no_faults E" and "metrics_ok E" and "fonts_ok_pos E"
    and "img < length (heap s)"
    and "30 \<le> xsize (heap s ! img) \<and> 30 \<le> ysize (heap s ! img)"
    and "\<forall>l. logo = Some l \<longrightarrow> l < length (heap s) \<and> mode (heap s ! l) \<noteq> RGB"
  shows "\<exists>r s'. apply_text_layout E img subtitle details logo s = (Inr r, s')
     \<and> r < length (heap s')
     \<and> xsize (heap s' ! r) = xsize (heap s ! img)
     \<and> ysize (heap s' ! r) = ysize (heap s ! img)
     \<and> mode (heap s' ! r) = RGB"
proof -
  let ?b = "min (int (xsize (heap s ! img))) (int (ysize (heap s ! img))) div 15"
  have "30 \<le> min (int (xsize (heap s ! img))) (int (ysize (heap s ! img)))"
    using assms(5) by simp
  then have "30 div 15 \<le> ?b" by (rule zdiv_mono1) simp
  then have "2 \<le> ?b" by simp
  then have "font_loads E (py_int (fmul (py_float ?b) (py_lit (8 / 10))))"
    "font_loads E (py_int (fmul (py_float ?b) (py_lit (5 / 10))))"
    by (intro fonts_ok_pos_loads [OF assms(3)] font_sizes_pos; assumption)+
  from apply_text_layout_run [OF assms(1,2,4,6) this]
  show ?thesis
    by (simp add: Let_def nth_append)
qed

theorem apply_text_layout_size_mode_30_witness:
  "\<exists>r s'. apply_text_layout strict_font_env 0 ''Tech Summit 2024'' ''Dec 15-17'' (Some (Suc 0))
            demo_state = (Inr r, s')
     \<and> xsize (heap s' ! r) = 600 \<and> ysize (heap s' ! r) = 450 \<and> mode (heap s' ! r) = RGB"
proof -
  have big: "30 \<le> xsize (heap demo_state ! 0) \<and> 30 \<le> ysize (heap demo_state ! 0)"
    by (simp add: demo_state_def)
  from apply_text_layout_size_mode_30 [OF no_faults_strict metrics_ok_strict fonts_ok_pos_strict
      demo_img_ok big demo_logo_ok, of "''Tech Summit 2024''" "''Dec 15-17''"]
  obtain r s' where
    "apply_text_layout strict_font_env 0 ''Tech Summit 2024'' ''Dec 15-17'' (Some (Suc 0))
       demo_state = (Inr r, s')"
    "xsize (heap s' ! r) = xsize (heap demo_state ! 0)"
    "ysize (heap s' ! r) = ysize (heap demo_state ! 0)"
    "mode (heap s' ! r) = RGB"
    by blast
  then show ?thesis
    by (intro exI [of _ r] exI [of _ s']) (simp add: demo_state_def)
qed

subsection \<open>Inputs are not modified\<close>

lemma frame_return: "Q x \<Longrightarrow> frame n (py_return x) Q"
  by (simp add: frame_def py_return_def)

lemma frame_raise: "frame n (py_raise e) Q"
  by (simp add: frame_def py_raise_def)

lemma frame_lift: "frame n (py_lift r) (\<lambda>x. True)"
  by (simp add: frame_def py_lift_def split: sum.splits)

lemma frame_weaken: "frame n m P \<Longrightarrow> (\<And>x. P x \<Longrightarrow> Q x) \<Longrightarrow> frame n m Q"
  by (auto simp: frame_def split: sum.splits)

lemma frame_bind:
  assumes "frame n m P" and "\<And>x. P x \<Longrightarrow> frame n (f x) Q"
  shows "frame n (py_bind m f) Q"
  unfolding frame_def
proof (intro allI impI)
  fix s :: state
  assume n: "n \<le> length (heap s)"
  obtain r s1 where m: "m s = (r, s1)" by (cases "m s")
  from assms(1) n m have 1: "n \<le> length (heap s1)" "take n (heap s1) = take n (heap s)"
    and P: "case r of Inl e \<Rightarrow> True | Inr x \<Rightarrow> P x"
    by (auto simp: frame_def dest!: spec [of _ s])
  show "n \<le> length (heap (snd (py_bind m f s))) \<and>
        take n (heap (snd (py_bind m f s))) = take n (heap s) \<and>
        (case fst (py_bind m f s) of Inl e \<Rightarrow> True | Inr x \<Rightarrow> Q x)"
  proof (cases r)
    case (Inl e)
    then show ?thesis using 1 by (simp add: py_bind_def m)
  next
    case (Inr x)
    with P have "frame n (f x) Q" by (simp add: assms(2))
    with 1 have "n \<le> length (heap (snd (f x s1))) \<and>
        take n (heap (snd (f x s1))) = take n (heap s1) \<and>
        (case fst (f x s1) of Inl e \<Rightarrow> True | Inr x \<Rightarrow> Q x)"
      unfolding frame_def by blast
    then show ?thesis using 1 by (simp add: py_bind_def m Inr)
  qed
qed

lemma frame_try:
  assumes "frame n m Q" and "\<And>e. frame n (h e) Q"
  shows "frame n (py_try m h) Q"
  unfolding frame_def
proof (intro allI impI)
  fix s :: state
  assume n: "n \<le> length (heap s)"
  obtain r s1 where m: "m s = (r, s1)" by (cases "m s")
  from assms(1) n m have 1: "n \<le> length (heap s1)" "take n (heap s1) = take n (heap s)"
    and P: "case r of Inl e \<Rightarrow> True | Inr x \<Rightarrow> Q x"
    by (auto simp: frame_def dest!: spec [of _ s])
  show "n \<le> length (heap (snd (py_try m h s))) \<and>
        take n (heap (snd (py_try m h s))) = take n (heap s) \<and>
        (case fst (py_try m h s) of Inl e \<Rightarrow> True | Inr x \<Rightarrow> Q x)"
  proof (cases r)
    case (Inr x)
    then show ?thesis using 1 P by (simp add: py_try_def m)
  next
    case (Inl e)
    from assms(2) [of e] 1 have "n \<le> length (heap (snd (h e s1))) \<and>
        take n (heap (snd (h e s1))) = take n (heap s1) \<and>
        (case fst (h e s1) of Inl e \<Rightarrow> True | Inr x \<Rightarrow> Q x)"
      unfolding frame_def by blast
    then show ?thesis using 1 by (simp add: py_try_def m Inl)
  qed
qed

lemma frame_alloc: "frame n (alloc v) (\<lambda>a. n \<le> a)"
  by (simp add: frame_def alloc_def)

lemma frame_deref: "frame n (deref a) (\<lambda>x. True)"
  by (simp add: frame_def deref_def)

lemma frame_assign: "n \<le> a \<Longrightarrow> frame n (assign a v) (\<lambda>x. True)"
  by (simp add: frame_def assign_def)

lemma frame_guard: "frame n (guard E c im) (\<lambda>x. True)"
  by (simp add: frame_def guard_def py_raise_def py_return_def split: option.splits)

lemma frame_if: "frame n a Q \<Longrightarrow> frame n b Q \<Longrightarrow> frame n (if c then a else b) Q"
  by simp

lemma frame_Image_new: "frame n (Image_new E m sz c) (\<lambda>a. n \<le> a)"
  unfolding Image_new_def by (intro frame_bind [OF frame_guard] frame_alloc)

lemma frame_Image_copy: "frame n (Image_copy E a) (\<lambda>a. n \<le> a)"
  unfolding Image_copy_def by (intro frame_bind [OF frame_deref] frame_bind [OF frame_guard] frame_alloc)

lemma frame_Image_convert: "frame n (Image_convert E a m) (\<lambda>a. n \<le> a)"
  unfolding Image_convert_def
  by (intro frame_bind [OF frame_deref] frame_bind [OF frame_guard] frame_alloc)

lemma frame_Image_alpha_composite: "frame n (Image_alpha_composite E a b) (\<lambda>a. n \<le> a)"
  unfolding Image_alpha_composite_def
  by (intro frame_bind [OF frame_deref] frame_bind [OF frame_guard] frame_if frame_alloc frame_raise)

lemma frame_Image_paste: "n \<le> a \<Longrightarrow> frame n (Image_paste E a src pos msk) (\<lambda>x. True)"
  unfolding Image_paste_def
  by (intro frame_bind [OF frame_deref] frame_bind [OF frame_guard] frame_if frame_assign frame_raise)

lemma frame_Image_thumbnail: "n \<le> a \<Longrightarrow> frame n (Image_thumbnail E a box) (\<lambda>x. True)"
  unfolding Image_thumbnail_def
  by (intro frame_bind [OF frame_deref] frame_bind [OF frame_guard] frame_bind [OF frame_lift])
     (auto intro: frame_return frame_assign split: option.splits)

lemma frame_log: "frame n (\<lambda>s. (Inr (), s\<lparr>drawn := drawn s @ cs\<rparr>)) (\<lambda>x. True)"
  by (simp add: frame_def)

lemma frame_Draw_text: "n \<le> d \<Longrightarrow> frame n (Draw_text E d p t f fill) (\<lambda>x. True)"
  unfolding Draw_text_def
  by (intro frame_bind [OF frame_deref] frame_bind [OF frame_guard] frame_bind [OF frame_assign]
      frame_log)

lemma frame_for_each:
  "(\<And>x. frame n (body x) (\<lambda>u. True)) \<Longrightarrow> frame n (for_each xs body) (\<lambda>u. True)"
  by (induction xs) (auto intro: frame_return frame_bind)

lemma frame_draw_text_with_outline:
  assumes "n \<le> d"
  shows "frame n (draw_text_with_outline E d t x y f fc oc center) (\<lambda>u. True)"
  unfolding draw_text_with_outline_def
  apply (rule frame_bind [where P = "\<lambda>x. True"])
   apply (rule frame_if)
    apply (rule frame_try)
     apply (rule frame_bind [OF frame_lift])
     apply (rule frame_return, simp)
    apply (rule frame_if)
     apply (rule frame_bind [OF frame_lift])
     apply (rule frame_return, simp)
    apply (rule frame_raise)
   apply (rule frame_return, simp)
  apply (rule frame_bind [where P = "\<lambda>x. True"])
   apply (rule frame_for_each)
   apply (rule frame_for_each)
   apply (rule frame_if)
    apply (rule frame_Draw_text [OF assms])
   apply (rule frame_return, simp)
  apply (rule frame_Draw_text [OF assms])
  done

lemma frame_details_loop:
  assumes "n \<le> d"
  shows "frame n (details_loop E d ls x f sz y) (\<lambda>u. True)"
proof (induction ls arbitrary: y)
  case Nil
  show ?case by (simp add: frame_return)
next
  case (Cons l ls)
  show ?case
    by (simp only: details_loop.simps)
      (intro frame_bind [OF frame_draw_text_with_outline [OF assms]] Cons.IH)
qed

lemma frame_get_font: "frame n (get_font E sz) (\<lambda>u. True)"
  unfolding get_font_def
  by (intro frame_try frame_lift frame_if frame_return frame_raise TrueI)

lemma frame_apply_text_layout:
  "frame n (apply_text_layout E img subtitle details logo) (\<lambda>r. n \<le> r)"
  unfolding apply_text_layout_def Let_def
  apply (rule frame_bind [OF frame_Image_copy])
  apply (rule frame_bind [OF frame_Image_convert])
  apply (rule frame_bind [OF frame_deref])
  apply (rule frame_bind [OF frame_Image_new])
  apply (rule frame_bind [OF frame_Image_new])
  apply (rule frame_bind [OF frame_Image_alpha_composite])
  apply (rule frame_bind [OF frame_get_font])
  apply (rule frame_bind [OF frame_get_font])
  apply (rule frame_bind [where P = "\<lambda>x. True"])
   apply (rule frame_if)
    apply (rule frame_bind [OF frame_draw_text_with_outline], assumption)
    apply (rule frame_return, simp)
   apply (rule frame_return, simp)
  apply (rule frame_bind [where P = "\<lambda>x. True"])
   apply (rule frame_if)
    apply (rule frame_details_loop, assumption)
   apply (rule frame_return, simp)
  apply (rule frame_bind [where P = "\<lambda>x. True"])
   apply (cases logo)
    apply (simp add: frame_return)
   apply (simp only: option.case)
   apply (rule frame_bind [OF frame_deref])
   apply (rule frame_Image_paste, assumption)
  apply (rule frame_bind [OF frame_Image_alpha_composite])
  apply (rule frame_Image_convert)
  done

lemma frame_process_logo:
  "frame n (process_logo E logo_image max_size)
     (\<lambda>r. case r of None \<Rightarrow> True | Some l \<Rightarrow> n \<le> l)"
proof (cases logo_image)
  case None
  then show ?thesis by (simp add: process_logo_def frame_return)
next
  case (Some li)
  show ?thesis
    unfolding process_logo_def Some option.case
    apply (rule frame_try)
     apply (rule frame_bind [OF frame_Image_copy])
     apply (rule frame_bind [OF frame_Image_thumbnail], assumption)
     apply (rule frame_bind [OF frame_deref])
     apply (rule frame_bind [where P = "\<lambda>a. n \<le> a"])
      apply (rule frame_if)
       apply (rule frame_Image_convert)
      apply (rule frame_return, assumption)
     apply (rule frame_return, simp)
    apply (rule frame_return, simp)
    done
qed

text \<open>
  C9. Neither \<open>apply_text_layout\<close> nor \<open>process_logo\<close> changes an image object that
  exists when it is called: whatever the environment does, and whether the call returns
  or raises, the heap of the state before the call is a prefix of the heap after it, so
  the background and the logo passed in are unchanged. An image that is returned is a
  new object.
\<close>

theorem apply_text_layout_inputs_unchanged:
  "take (length (heap s)) (heap (snd (apply_text_layout E img subtitle details logo s))) = heap s
   \<and> (case fst (apply_text_layout E img subtitle details logo s) of
         Inr r \<Rightarrow> length (heap s) \<le> r | Inl e \<Rightarrow> True)
   \<and> take (length (heap s)) (heap (snd (process_logo E logo_image max_size s))) = heap s
   \<and> (case fst (process_logo E logo_image max_size s) of
         Inr (Some l) \<Rightarrow> length (heap s) \<le> l | Inr None \<Rightarrow> True | Inl e \<Rightarrow> True)"
  using frame_apply_text_layout [of "length (heap s)" E img subtitle details logo]
    frame_process_logo [of "length (heap s)" E logo_image max_size]
  unfolding frame_def
  by (auto dest!: spec [of _ s] split: sum.splits option.splits)

subsection \<open>The logo\<close>

lemma process_logo_try:
  "process_logo E (Some li) max_size =
     py_try (process_logo_body E li max_size) (\<lambda>e. py_return None)"
  by (simp add: process_logo_def process_logo_body_def)

lemma process_logo_total: "\<exists>r s'. process_logo E logo_image max_size s = (Inr r, s')"
proof (cases logo_image)
  case None
  then show ?thesis by (simp add: process_logo_def py_return_def)
next
  case (Some li)
  obtain r s1 where b: "process_logo_body E li max_size s = (r, s1)"
    by (cases "process_logo_body E li max_size s")
  show ?thesis
    by (cases r) (simp_all add: Some process_logo_try py_try_def b py_return_def)
qed

text \<open>
  C6. \<open>process_logo\<close> returns \<open>None\<close> without touching the state when no logo is
  given; when a step of its \<open>try\<close> body raises, it returns \<open>None\<close> as well; it never
  raises. With the logo \<open>None\<close>, \<open>apply_text_layout\<close> returns the darkened background
  under the text layer, with no paste on it.
\<close>

theorem process_logo_absent:
  "process_logo E None max_size s = (Inr None, s)
   \<and> (\<forall>li e s'. process_logo_body E li max_size s = (Inl e, s') \<longrightarrow>
          process_logo E (Some li) max_size s = (Inr None, s'))
   \<and> (\<exists>r s'. process_logo E logo_image max_size s = (Inr r, s'))
   \<and> (benign E \<and> img < length (heap s) \<longrightarrow>
        (\<exists>r s'. apply_text_layout E img subtitle details None s = (Inr r, s')
           \<and> r < length (heap s')
           \<and> heap s' ! r =
               convert_v E RGB
                 (alpha_composite_v E (darkened E (heap s ! img))
                    (text_layer E (length (heap s) + 2) (heap s ! img) subtitle details))))"
proof (intro conjI allI impI)
  show "process_logo E None max_size s = (Inr None, s)"
    by (simp add: process_logo_def py_return_def)
next
  fix li e s'
  assume "process_logo_body E li max_size s = (Inl e, s')"
  then show "process_logo E (Some li) max_size s = (Inr None, s')"
    by (simp add: process_logo_try py_try_def py_return_def)
next
  show "\<exists>r s'. process_logo E logo_image max_size s = (Inr r, s')"
    by (rule process_logo_total)
next
  assume a: "benign E \<and> img < length (heap s)"
  have l: "\<forall>l. (None :: nat option) = Some l \<longrightarrow> l < length (heap s) \<and> mode (heap s ! l) \<noteq> RGB"
    by simp
  from a have "benign E" "img < length (heap s)" by simp_all
  from apply_text_layout_result [OF this l, of subtitle details]
  obtain r s' where "apply_text_layout E img subtitle details None s = (Inr r, s')"
    "r < length (heap s')"
    "heap s' ! r =
       convert_v E RGB
         (alpha_composite_v E
            (with_logo E (darkened E (heap s ! img)) (map_option (\<lambda>l. heap s ! l) None))
            (text_layer E (length (heap s) + 2) (heap s ! img) subtitle details))"
    by blast
  then show "\<exists>r s'. apply_text_layout E img subtitle details None s = (Inr r, s')
           \<and> r < length (heap s')
           \<and> heap s' ! r =
               convert_v E RGB
                 (alpha_composite_v E (darkened E (heap s ! img))
                    (text_layer E (length (heap s) + 2) (heap s ! img) subtitle details))"
    by (intro exI [of _ r] exI [of _ s']) (simp add: with_logo_def)
qed

lemma faulty_body:
  "process_logo_body faulty_env (Suc 0) 200 demo_state =
     (Inl OSError, demo_state\<lparr>heap := heap demo_state @ [heap demo_state ! Suc 0]\<rparr>)"
  by (simp add: process_logo_body_def Image_copy_def Image_thumbnail_def deref_def guard_def
      alloc_def py_bind_def py_return_def py_raise_def faulty_env_def demo_state_def nth_append)

theorem process_logo_absent_witness:
  "process_logo faulty_env (Some (Suc 0)) 200 demo_state =
     (Inr None, demo_state\<lparr>heap := heap demo_state @ [heap demo_state ! Suc 0]\<rparr>)
   \<and> (\<exists>r s'. apply_text_layout offline_env 0 ''Tech Summit 2024'' ''Dec 15-17'' None demo_state
                = (Inr r, s')
         \<and> r < length (heap s'))"
proof -
  from process_logo_absent [where E = faulty_env and max_size = 200 and s = demo_state]
  have "\<forall>li e s'. process_logo_body faulty_env li 200 demo_state = (Inl e, s') \<longrightarrow>
          process_logo faulty_env (Some li) 200 demo_state = (Inr None, s')"
    by (rule conjunct1 [OF conjunct2])
  with faulty_body have a: "process_logo faulty_env (Some (Suc 0)) 200 demo_state =
     (Inr None, demo_state\<lparr>heap := heap demo_state @ [heap demo_state ! Suc 0]\<rparr>)"
    by blast
  from process_logo_absent [where E = offline_env and s = demo_state and img = 0
      and subtitle = "''Tech Summit 2024''" and details = "''Dec 15-17''"]
    benign_offline demo_img_ok
  obtain r s' where
    "apply_text_layout offline_env 0 ''Tech Summit 2024'' ''Dec 15-17'' None demo_state = (Inr r, s')"
    "r < length (heap s')"
    by blast
  with a show ?thesis by blast
qed



lemma resize_v_fields [simp]:
  "mode (resize_v E im sz) = mode im" "xsize (resize_v E im sz) = fst sz"
  "ysize (resize_v E im sz) = snd sz"
  by (simp_all add: resize_v_def)




subsection \<open>The entry point under a loading model\<close>

text \<open>
  C1. The claim: \<open>generate_simple_poster\<close> returns a poster for every input and never
  raises, the HTTP 503 (model loading) answers included, which the retry loop handles by
  sleeping and retrying. With an API token set and the endpoint answering 503, the first
  pass through the retry loop reaches \<open>time.sleep(15)\<close>; \<open>working.py\<close> never imports
  \<open>time\<close>, so the call raises \<open>NameError\<close>, which is not a \<open>RequestException\<close> and
  leaves \<open>generate_simple_poster\<close> uncaught. No poster is produced.
\<close>

theorem generate_simple_poster_model_loading:
  "fst (generate_simple_poster loading_env ''Tech conference poster'' ''Tech Summit 2024''
          ''December 15-17, 2024'' None ''3:4 - Poster'' init) = Inl (NameError ''time'')"
  by (simp add: generate_simple_poster_def aspect_ratios_def create_background_via_api_def
      loading_env_def offline_env_def upt_rec attempt_def py_bind_def py_try_def py_lift_def
      global_name_def module_globals_def py_raise_def py_return_def)

end
